theory Spec2Isabelle
  imports Main "HOL-Library.Sublist"
begin

section \<open>Python values and the errors the code can raise\<close>

text \<open>
  The exceptions that the modelled code can raise. \<open>SystemExit\<close> is what
  \<^verbatim>\<open>sys.exit(-1)\<close> raises; it is never caught in the modelled files, so it ends the
  process. The exit status is not recorded.
\<close>

datatype py_error =
    KeyError string
  | TypeError
  | AttributeError
  | IndexError
  | SystemExit

definition bind :: "py_error + 'a \<Rightarrow> ('a \<Rightarrow> py_error + 'b) \<Rightarrow> py_error + 'b" where
  "bind m f = (case m of Inl e \<Rightarrow> Inl e | Inr x \<Rightarrow> f x)"

text \<open>
  \<^verbatim>\<open>p in s\<close> for two Python strings: \<open>p\<close> occurs in \<open>s\<close> as a contiguous
  piece.
\<close>

fun starts_with :: "string \<Rightarrow> string \<Rightarrow> bool" where
  "starts_with s [] = True"
| "starts_with [] (p # ps) = False"
| "starts_with (c # cs) (p # ps) = (c = p \<and> starts_with cs ps)"

fun str_contains :: "string \<Rightarrow> string \<Rightarrow> bool" where
  "str_contains [] p = (p = [])"
| "str_contains (c # cs) p = (starts_with (c # cs) p \<or> str_contains cs p)"

text \<open>
  \<^verbatim>\<open>xs[i]\<close> on a Python list: a negative index counts from the end, an index out
  of range raises \<^verbatim>\<open>IndexError\<close>.
\<close>

definition py_index :: "'a list \<Rightarrow> int \<Rightarrow> py_error + 'a" where
  "py_index xs i =
     (if i < 0
      then (if - i \<le> int (length xs) then Inr (xs ! nat (int (length xs) + i))
            else Inl IndexError)
      else (if i < int (length xs) then Inr (xs ! nat i) else Inl IndexError))"


section \<open>clustersConfig.py: the template functions\<close>

text \<open>
  Modelled from the spec: the module \<^verbatim>\<open>clusterInfo\<close> is not among the sources. The
  spec gives a \<^verbatim>\<open>ClusterInfo\<close> the two attributes the code reads: \<^verbatim>\<open>workers\<close>, an
  ordered sequence of names, and \<^verbatim>\<open>network_api_port\<close>, a string.
  \<^verbatim>\<open>load_all_cluster_info()\<close> returns a dict from host names to such values; it is
  the parameter \<open>all_cluster_info\<close> below.
\<close>

record cluster_info =
  workers :: "string list"
  network_api_port :: string

text \<open>
  \<^verbatim>\<open>current_host()\<close> is \<^verbatim>\<open>lh.run("hostname").out.strip().split(".")[0]\<close>. The output
  of the \<^verbatim>\<open>hostname\<close> command is the parameter \<open>hostname_out\<close>; \<^verbatim>\<open>strip()\<close>
  removes leading and trailing white space, the characters for which Python's
  \<^verbatim>\<open>str.isspace\<close> holds. A character of the model is a code point below 256;
  among these the white space is U+0009 to U+000D, U+001C to U+001F, U+0020,
  U+0085 and U+00A0.
\<close>

definition py_isspace :: "char \<Rightarrow> bool" where
  "py_isspace c =
     (c \<in> set [CHR 0x09, CHR 0x0A, CHR 0x0B, CHR 0x0C, CHR 0x0D,
                CHR 0x1C, CHR 0x1D, CHR 0x1E, CHR 0x1F, CHR 0x20,
                CHR 0x85, CHR 0xA0])"

definition strip :: "string \<Rightarrow> string" where
  "strip s = rev (dropWhile py_isspace (rev (dropWhile py_isspace s)))"

definition current_host :: "string \<Rightarrow> string" where
  "current_host hostname_out = takeWhile (\<lambda>c. c \<noteq> CHR ''.'') (strip hostname_out)"

text \<open>
  \<^verbatim>\<open>_ensure_clusters_loaded\<close>: the attribute \<^verbatim>\<open>self._clusters\<close> is threaded through
  as an option; an unknown host ends the process with \<^verbatim>\<open>sys.exit(-1)\<close>.
\<close>

definition ensure_clusters_loaded ::
  "(string \<rightharpoonup> cluster_info) \<Rightarrow> string \<Rightarrow> cluster_info option \<Rightarrow> py_error + cluster_info"
where
  "ensure_clusters_loaded all_cluster_info hostname_out clusters =
     (case clusters of
        Some ci \<Rightarrow> Inr ci
      | None \<Rightarrow>
          (case all_cluster_info (current_host hostname_out) of
             Some ci \<Rightarrow> Inr ci
           | None \<Rightarrow> Inl SystemExit))"

text \<open>\<^verbatim>\<open>re.sub("[^0-9]", "", name)\<close>: every character outside \<^verbatim>\<open>0\<close>..\<^verbatim>\<open>9\<close> is deleted.\<close>

definition is_digit :: "char \<Rightarrow> bool" where
  "is_digit c = (c \<in> set ''0123456789'')"

fun re_sub_non_digits :: "string \<Rightarrow> string" where
  "re_sub_non_digits [] = []"
| "re_sub_non_digits (c # cs) =
     (if is_digit c then c # re_sub_non_digits cs else re_sub_non_digits cs)"

text \<open>
  The three template functions of \<^verbatim>\<open>_apply_jinja\<close>. Each returns its value and the
  new \<^verbatim>\<open>self._clusters\<close>.
\<close>

definition worker_number ::
  "(string \<rightharpoonup> cluster_info) \<Rightarrow> string \<Rightarrow> cluster_info option \<Rightarrow> int
     \<Rightarrow> py_error + (string \<times> cluster_info option)"
where
  "worker_number all_cluster_info hostname_out clusters a =
     bind (ensure_clusters_loaded all_cluster_info hostname_out clusters) (\<lambda>ci.
     bind (py_index (workers ci) a) (\<lambda>name.
     Inr (re_sub_non_digits name, Some ci)))"

definition worker_name ::
  "(string \<rightharpoonup> cluster_info) \<Rightarrow> string \<Rightarrow> cluster_info option \<Rightarrow> int
     \<Rightarrow> py_error + (string \<times> cluster_info option)"
where
  "worker_name all_cluster_info hostname_out clusters a =
     bind (ensure_clusters_loaded all_cluster_info hostname_out clusters) (\<lambda>ci.
     bind (py_index (workers ci) a) (\<lambda>name.
     Inr (name, Some ci)))"

definition api_network ::
  "(string \<rightharpoonup> cluster_info) \<Rightarrow> string \<Rightarrow> cluster_info option
     \<Rightarrow> py_error + (string \<times> cluster_info option)"
where
  "api_network all_cluster_info hostname_out clusters =
     bind (ensure_clusters_loaded all_cluster_info hostname_out clusters) (\<lambda>ci.
     Inr (network_api_port ci, Some ci))"


section \<open>virtualBridge.py: the host and its commands\<close>

text \<open>
  \<^verbatim>\<open>os.path.join(a, b)\<close> of \<^verbatim>\<open>posixpath\<close>, for two components.
\<close>

definition path_join :: "string \<Rightarrow> string \<Rightarrow> string" where
  "path_join a b =
     (if starts_with b ''/'' then b
      else if a = [] \<or> last a = CHR ''/'' then a @ b
      else a @ ''/'' @ b)"

text \<open>The characters that cannot be written inside a string literal.\<close>

abbreviation sq :: string where "sq \<equiv> [CHR 0x27]"
abbreviation dq :: string where "dq \<equiv> [CHR 0x22]"
abbreviation bs :: string where "bs \<equiv> [CHR 0x5C]"
abbreviation nl :: string where "nl \<equiv> [CHR 0x0A]"

text \<open>
  Modelled from the spec: the module \<^verbatim>\<open>host\<close> is not among the sources. The spec
  gives its contract: \<^verbatim>\<open>run(command)\<close> returns the exit code, the standard output
  and the standard error; \<^verbatim>\<open>run_or_die(command)\<close> is the same but fatal on a
  non-zero exit; there are \<^verbatim>\<open>write(path, contents)\<close>, \<^verbatim>\<open>read_file(path)\<close> and
  \<^verbatim>\<open>hostname()\<close>.

  The host is a machine outside the program, in a state the program does not
  know. It is modelled by what it answers: the answer to a command may depend on
  everything that was done to it before, so it is a function of the history of
  events and of the command. Every call is recorded in the history, in the order
  of the calls; the host being a function of the history, the answer that a
  recorded command got is \<open>respond h\<close> at the events before it.
\<close>

record run_result =
  returncode :: int
  out :: string
  err :: string

datatype event =
    Ran string
  | Wrote string string
  | ReadFile string
  | Slept nat

record host =
  hostname :: string
  respond :: "event list \<Rightarrow> string \<Rightarrow> run_result"
  file_contents :: "event list \<Rightarrow> string \<Rightarrow> string"

text \<open>
  An action takes the history so far and returns its result, or the error that
  ended it, together with the new history.
\<close>

type_synonym 'a action = "event list \<Rightarrow> (py_error + 'a) \<times> event list"

definition andthen :: "'a action \<Rightarrow> ('a \<Rightarrow> 'b action) \<Rightarrow> 'b action" where
  "andthen m f t = (case m t of (Inl e, t') \<Rightarrow> (Inl e, t') | (Inr x, t') \<Rightarrow> f x t')"

definition finish :: "'a \<Rightarrow> 'a action" where
  "finish x t = (Inr x, t)"

definition run :: "host \<Rightarrow> string \<Rightarrow> run_result action" where
  "run h cmd t = (Inr (respond h t cmd), t @ [Ran cmd])"

definition run_or_die :: "host \<Rightarrow> string \<Rightarrow> run_result action" where
  "run_or_die h cmd t =
     (let r = respond h t cmd
      in (if returncode r \<noteq> 0 then Inl SystemExit else Inr r, t @ [Ran cmd]))"

definition write_file :: "host \<Rightarrow> string \<Rightarrow> string \<Rightarrow> unit action" where
  "write_file h path contents t = (Inr (), t @ [Wrote path contents])"

definition read_file :: "host \<Rightarrow> string \<Rightarrow> string action" where
  "read_file h path t = (Inr (file_contents h t path), t @ [ReadFile path])"

definition sleep :: "nat \<Rightarrow> unit action" where
  "sleep n t = (Inr (), t @ [Slept n])"

text \<open>
  Modelled from the spec: \<^verbatim>\<open>logger.error_and_exit\<close> is not among the sources; the
  spec calls the failures it reports fatal, ending the process. Logging itself
  does nothing to the host and is left out.
\<close>

definition error_and_exit :: "'a action" where
  "error_and_exit t = (Inl SystemExit, t)"

definition sys_exit :: "'a action" where
  "sys_exit t = (Inl SystemExit, t)"

text \<open>
  Modelled from the spec: \<^verbatim>\<open>NodeConfig\<close> is imported from \<^verbatim>\<open>clustersConfig\<close> but not
  declared in the version among the sources. The code reads the attributes
  \<^verbatim>\<open>name\<close>, \<^verbatim>\<open>ip\<close> and \<^verbatim>\<open>mac\<close>, and tests \<^verbatim>\<open>ip\<close> against \<^verbatim>\<open>None\<close>. An f-string
  prints an attribute that is \<^verbatim>\<open>None\<close> as the four letters \<^verbatim>\<open>None\<close>.
\<close>

record node_config =
  name :: string
  ip :: "string option"
  mac :: "string option"

definition fmt_opt :: "string option \<Rightarrow> string" where
  "fmt_opt v = (case v of None \<Rightarrow> ''None'' | Some s \<Rightarrow> s)"


section \<open>virtualBridge.py: VirBridge\<close>

definition setup_dhcp_entry :: "host \<Rightarrow> node_config \<Rightarrow> unit action" where
  "setup_dhcp_entry h cfg =
     (case ip cfg of
        None \<Rightarrow> error_and_exit
      | Some ip_v \<Rightarrow>
          andthen (run_or_die h ''virsh net-dumpxml default'') (\<lambda>ret.
          andthen
            (if str_contains (out ret) (sq @ name cfg @ sq)
             then
               (let host_xml = ''<host name='' @ sq @ name cfg @ sq @ ''/>'';
                    cmd = ''virsh net-update default delete ip-dhcp-host '' @ dq @ host_xml @ dq
                            @ '' --live --config''
                in andthen (run_or_die h cmd) (\<lambda>_. finish ()))
             else finish ()) (\<lambda>_.
          andthen (run h ''virsh net-dhcp-leases default'') (\<lambda>ret.
          if str_contains (out ret) (name cfg @ '' '')
          then sys_exit
          else
            (let host_xml = ''<host mac='' @ sq @ fmt_opt (mac cfg) @ sq
                              @ '' name='' @ sq @ name cfg @ sq
                              @ '' ip='' @ sq @ ip_v @ sq @ ''/>'';
                 cmd = ''virsh net-update default add ip-dhcp-host '' @ dq @ host_xml @ dq
                         @ '' --live --config''
             in andthen (run_or_die h cmd) (\<lambda>_. finish ()))))))"

definition ensure_started :: "host \<Rightarrow> string \<Rightarrow> string \<Rightarrow> unit action" where
  "ensure_started h api_port bridge_xml =
     andthen (run h ''virsh net-destroy default'') (\<lambda>_.
     andthen (run h ''virsh net-undefine default'') (\<lambda>ret.
     andthen
       (if returncode ret \<noteq> 0 \<and> \<not> str_contains (err ret) ''Network not found''
        then error_and_exit else finish ()) (\<lambda>_.
     andthen (run h ''ip link delete virbr0'') (\<lambda>_.
     andthen (run_or_die h (''virsh net-define '' @ bridge_xml)) (\<lambda>_.
     andthen (run h (''ip link set '' @ api_port @ '' down'')) (\<lambda>_.
     andthen (run_or_die h ''virsh net-start default'') (\<lambda>_.
     andthen (run h (''ip link set '' @ api_port @ '' up'')) (\<lambda>_.
     finish ()))))))))"

definition limit_dhcp_range :: "host \<Rightarrow> string \<Rightarrow> string \<Rightarrow> unit action" where
  "limit_dhcp_range h old_range new_range =
     andthen (run h ''virsh net-dumpxml default'') (\<lambda>ret.
     if str_contains (out ret) (''range start='' @ sq @ old_range @ sq)
     then
       (let host_xml = ''<range start='' @ sq @ old_range @ sq
                         @ '' end='' @ sq @ ''192.168.122.254'' @ sq @ ''/>'';
            cmd = ''virsh net-update default delete ip-dhcp-range '' @ dq @ host_xml @ dq
                    @ '' --live --config''
        in andthen (run h cmd) (\<lambda>_.
           (let host_xml = ''<range start='' @ sq @ new_range @ sq
                             @ '' end='' @ sq @ ''192.168.122.254'' @ sq @ ''/>'';
                cmd = ''virsh net-update default add ip-dhcp-range '' @ dq @ host_xml @ dq
                        @ '' --live --config''
            in andthen (run h cmd) (\<lambda>_. finish ()))))
     else finish ())"

definition network_xml :: "string \<Rightarrow> (string \<times> string) option \<Rightarrow> string" where
  "network_xml ip_v dhcp_range =
     (let dhcp_part =
            (case dhcp_range of
               None \<Rightarrow> []
             | Some (lo, hi) \<Rightarrow>
                 ''<dhcp>'' @ nl
                 @ ''                <range start='' @ sq @ lo @ sq @ '' end='' @ sq @ hi @ sq
                 @ ''/>'' @ nl
                 @ ''                </dhcp>'')
      in nl
         @ ''                <network>'' @ nl
         @ ''                <name>default</name>'' @ nl
         @ ''                <forward mode='' @ sq @ ''nat'' @ sq @ ''/>'' @ nl
         @ ''                <bridge name='' @ sq @ ''virbr0'' @ sq @ '' stp='' @ sq @ ''off'' @ sq
         @ '' delay='' @ sq @ ''0'' @ sq @ ''/>'' @ nl
         @ ''                <ip address='' @ sq @ ip_v @ sq @ '' netmask='' @ sq
         @ ''255.255.0.0'' @ sq @ ''>'' @ nl
         @ ''                    '' @ dhcp_part @ nl
         @ ''                </ip>'' @ nl
         @ ''                </network>'')"

definition restart :: "host \<Rightarrow> unit action" where
  "restart h = andthen (run_or_die h ''systemctl restart libvirtd'') (\<lambda>_. finish ())"

text \<open>
  \<^verbatim>\<open>re.search\<close> with a pattern free of special characters is a search for the
  pattern as a piece of the text; the source makes the same test twice.
\<close>

definition ensure_run_as_root :: "host \<Rightarrow> unit action" where
  "ensure_run_as_root h =
     andthen (read_file h ''/etc/libvirt/qemu.conf'') (\<lambda>qemu_conf.
     if str_contains qemu_conf (nl @ ''user = '' @ dq @ ''root'' @ dq)
        \<and> str_contains qemu_conf (nl @ ''user = '' @ dq @ ''root'' @ dq)
     then finish ()
     else
       andthen
         (run h (''sed -e '' @ sq @ ''s/#'' @ bs @ ''(user'' @ bs @ ''|group'' @ bs @ '') = ''
                 @ dq @ ''.*'' @ dq @ ''$/'' @ bs @ ''1 = '' @ dq @ ''root'' @ dq @ ''/'' @ sq
                 @ '' -i /etc/libvirt/qemu.conf'')) (\<lambda>_.
       restart h))"

definition configure :: "host \<Rightarrow> string \<Rightarrow> unit action" where
  "configure h api_port =
     andthen (run_or_die h ''systemctl enable libvirtd --now'') (\<lambda>_.
     andthen (ensure_run_as_root h) (\<lambda>_.
     andthen (run h ''virsh net-dumpxml default'') (\<lambda>ret.
     if \<not> str_contains (out ret) (''stp='' @ sq @ ''off'' @ sq)
        \<or> str_contains (out ret) (''range start='' @ sq @ ''192.168.122.2'' @ sq)
     then
       (let contents =
              (if hostname h = ''localhost''
               then network_xml ''192.168.122.1'' (Some (''192.168.122.129'', ''192.168.122.254''))
               else network_xml ''192.168.123.250'' None);
            bridge_xml = path_join ''/tmp'' ''vir_bridge.xml''
        in andthen (write_file h bridge_xml contents) (\<lambda>_.
           andthen (sleep 5) (\<lambda>_.
           andthen (ensure_started h api_port bridge_xml) (\<lambda>_.
           andthen (limit_dhcp_range h ''192.168.122.2'' ''192.168.122.129'') (\<lambda>_.
           andthen (restart h) (\<lambda>_.
           sleep 5))))))
     else finish ())))"


section \<open>Reading a history\<close>

text \<open>
  The commands of a history, in the order they were run; the answer each of
  them got from the host, the history before the first of them being \<open>hist\<close>;
  and the events that an action adds to a history.
\<close>

fun cmds :: "event list \<Rightarrow> string list" where
  "cmds [] = []"
| "cmds (Ran c # es) = c # cmds es"
| "cmds (e # es) = cmds es"

fun answers :: "host \<Rightarrow> event list \<Rightarrow> event list \<Rightarrow> (string \<times> run_result) list" where
  "answers h hist [] = []"
| "answers h hist (Ran c # es) = (c, respond h hist c) # answers h (hist @ [Ran c]) es"
| "answers h hist (e # es) = answers h (hist @ [e]) es"

definition new_events :: "'a action \<Rightarrow> event list \<Rightarrow> event list" where
  "new_events a t0 = drop (length t0) (snd (a t0))"

text \<open>
  \<open>issued_before a b cs\<close>: if the command \<open>b\<close> is in \<open>cs\<close>, the command \<open>a\<close> is
  there strictly before the first \<open>b\<close>.
\<close>

definition issued_before :: "string \<Rightarrow> string \<Rightarrow> string list \<Rightarrow> bool" where
  "issued_before a b cs = (b \<in> set cs \<longrightarrow> a \<in> set (takeWhile (\<lambda>c. c \<noteq> b) cs))"


section \<open>Hosts and nodes for the examples\<close>

text \<open>
  A host on which every command succeeds, that prints \<open>dumpxml_out\<close> for
  \<^verbatim>\<open>virsh net-dumpxml default\<close>, \<open>leases_out\<close> for \<^verbatim>\<open>virsh net-dhcp-leases default\<close> and
  nothing for the other commands.
\<close>

definition quiet_host :: "string \<Rightarrow> string \<Rightarrow> host" where
  "quiet_host dumpxml_out leases_out =
     \<lparr>hostname = ''localhost'',
      respond = (\<lambda>hist c.
        if c = ''virsh net-dumpxml default''
        then \<lparr>returncode = 0, out = dumpxml_out, err = []\<rparr>
        else if c = ''virsh net-dhcp-leases default''
        then \<lparr>returncode = 0, out = leases_out, err = []\<rparr>
        else \<lparr>returncode = 0, out = [], err = []\<rparr>),
      file_contents = (\<lambda>hist p. [])\<rparr>"

text \<open>A host on which adding a static DHCP entry fails and everything else succeeds.\<close>

definition add_fails_host :: host where
  "add_fails_host =
     \<lparr>hostname = ''localhost'',
      respond = (\<lambda>hist c.
        if starts_with c ''virsh net-update default add ip-dhcp-host''
        then \<lparr>returncode = 1, out = [], err = ''error: failed to update network''\<rparr>
        else \<lparr>returncode = 0, out = [], err = []\<rparr>),
      file_contents = (\<lambda>hist p. [])\<rparr>"

text \<open>
  A host whose network still has the old DHCP range and on which every other
  command fails with exit code 1.
\<close>

definition failing_host :: host where
  "failing_host =
     \<lparr>hostname = ''localhost'',
      respond = (\<lambda>hist c.
        if c = ''virsh net-dumpxml default''
        then \<lparr>returncode = 0,
              out = ''<range start='' @ sq @ ''192.168.122.2'' @ sq @ '' end='' @ sq
                    @ ''192.168.122.254'' @ sq @ ''/>'',
              err = []\<rparr>
        else \<lparr>returncode = 1, out = [], err = ''error''\<rparr>),
      file_contents = (\<lambda>hist p. [])\<rparr>"

definition node_w2 :: node_config where
  "node_w2 = \<lparr>name = ''worker-2'', ip = Some ''192.168.122.12'', mac = None\<rparr>"


section \<open>The statements about the reconciler\<close>

text \<open>
  The seven commands that \<^verbatim>\<open>_ensure_started\<close> runs when nothing goes wrong, in the
  order of the source; \<^verbatim>\<open>configure\<close> calls it with the bridge file
  \<^verbatim>\<open>/tmp/vir_bridge.xml\<close>.
\<close>

definition recreation_sequence :: "string \<Rightarrow> string list" where
  "recreation_sequence api_port =
     [''virsh net-destroy default'', ''virsh net-undefine default'', ''ip link delete virbr0'',
      ''virsh net-define /tmp/vir_bridge.xml'', ''ip link set '' @ api_port @ '' down'',
      ''virsh net-start default'', ''ip link set '' @ api_port @ '' up'']"

text \<open>
  The answers that end \<^verbatim>\<open>configure\<close> and \<^verbatim>\<open>_ensure_started\<close>: a non-zero exit of a
  command run through \<^verbatim>\<open>run_or_die\<close> (enabling and restarting libvirtd, \<^verbatim>\<open>net-define\<close>,
  \<^verbatim>\<open>net-start\<close>), and a non-zero exit of \<^verbatim>\<open>net-undefine\<close> whose error output does not
  say \<^verbatim>\<open>Network not found\<close>.
\<close>

definition fatal_failure :: "string \<Rightarrow> run_result \<Rightarrow> bool" where
  "fatal_failure c r =
     (returncode r \<noteq> 0
      \<and> (c = ''virsh net-undefine default'' \<and> \<not> str_contains (err r) ''Network not found''
         \<or> starts_with c ''virsh net-define ''
         \<or> c = ''virsh net-start default''
         \<or> c = ''systemctl enable libvirtd --now''
         \<or> c = ''systemctl restart libvirtd''))"

text \<open>
  The failed commands that end \<^verbatim>\<open>setup_dhcp_entry\<close>: a non-zero exit of one of the
  three commands it runs through \<^verbatim>\<open>run_or_die\<close>, which are \<^verbatim>\<open>net-dumpxml\<close>, the deletion
  and the addition of the static entry of a host. The exit code of
  \<^verbatim>\<open>net-dhcp-leases\<close>, run through \<^verbatim>\<open>run\<close>, is not among them.
\<close>

definition fatal_failure_dhcp_entry :: "string \<Rightarrow> run_result \<Rightarrow> bool" where
  "fatal_failure_dhcp_entry c r =
     (returncode r \<noteq> 0
      \<and> (c = ''virsh net-dumpxml default''
         \<or> starts_with c ''virsh net-update default delete ip-dhcp-host ''
         \<or> starts_with c ''virsh net-update default add ip-dhcp-host ''))"

text \<open>
  \<open>stops_at_failure fatal h a\<close>: from every history, the action \<open>a\<close> only adds
  events to the history; an answer that is \<open>fatal\<close> is the answer to the last event
  of the run, nothing being done after it; and a run with such an answer ends
  with an error.
\<close>

definition stops_at_failure ::
  "(string \<Rightarrow> run_result \<Rightarrow> bool) \<Rightarrow> host \<Rightarrow> 'a action \<Rightarrow> bool"
where
  "stops_at_failure fatal h a =
     (\<forall>t0. snd (a t0) = t0 @ new_events a t0
         \<and> list_all (\<lambda>(c, r). \<not> fatal c r) (answers h t0 (butlast (new_events a t0)))
         \<and> ((\<exists>(c, r) \<in> set (answers h t0 (new_events a t0)). fatal c r)
              \<longrightarrow> (\<exists>e. fst (a t0) = Inl e)))"


section \<open>clustersConfig.py: the parsed configuration\<close>

text \<open>
  What \<^verbatim>\<open>yaml.safe_load\<close> returns: \<^verbatim>\<open>None\<close>, booleans, integers, strings, lists and
  dicts. A dict is a list of its items in insertion order; the keys the code
  looks up are all strings, and keys of another type are left out, as are
  floats, dates, binary data and sets. A document is a tree: YAML anchors and
  aliases, by which two places of a document share one object, are outside the
  model.
\<close>

datatype yaml =
    YNone
  | YBool bool
  | YInt int
  | YStr string
  | YList "yaml list"
  | YDict "(string \<times> yaml) list"

text \<open>\<^verbatim>\<open>d[key] = x\<close> on the items of a dict: a key keeps its place, a new key goes last.\<close>

fun dict_update :: "string \<Rightarrow> yaml \<Rightarrow> (string \<times> yaml) list \<Rightarrow> (string \<times> yaml) list" where
  "dict_update k x [] = [(k, x)]"
| "dict_update k x (p # d) = (if fst p = k then (k, x) # d else p # dict_update k x d)"

text \<open>
  \<^verbatim>\<open>key in v\<close>, \<^verbatim>\<open>v[key]\<close> and \<^verbatim>\<open>v[key] = x\<close> for a string \<open>key\<close> and any value \<open>v\<close>: on
  a string \<^verbatim>\<open>in\<close> looks for a piece of the string, on a list for an element; only a
  dict can be indexed by a string.
\<close>

definition py_in :: "string \<Rightarrow> yaml \<Rightarrow> py_error + bool" where
  "py_in key v =
     (case v of
        YDict d \<Rightarrow> Inr (key \<in> set (map fst d))
      | YStr s \<Rightarrow> Inr (str_contains s key)
      | YList xs \<Rightarrow> Inr (YStr key \<in> set xs)
      | _ \<Rightarrow> Inl TypeError)"

definition py_getitem :: "yaml \<Rightarrow> string \<Rightarrow> py_error + yaml" where
  "py_getitem v key =
     (case v of
        YDict d \<Rightarrow> (case map_of d key of Some x \<Rightarrow> Inr x | None \<Rightarrow> Inl (KeyError key))
      | _ \<Rightarrow> Inl TypeError)"

definition py_setitem :: "yaml \<Rightarrow> string \<Rightarrow> yaml \<Rightarrow> py_error + yaml" where
  "py_setitem v key x =
     (case v of
        YDict d \<Rightarrow> Inr (YDict (dict_update key x d))
      | _ \<Rightarrow> Inl TypeError)"

text \<open>The statement \<^verbatim>\<open>if key not in v: v[key] = x\<close>.\<close>

definition set_default :: "yaml \<Rightarrow> string \<Rightarrow> yaml \<Rightarrow> py_error + yaml" where
  "set_default v key x = bind (py_in key v) (\<lambda>b. if b then Inr v else py_setitem v key x)"

text \<open>
  \<^verbatim>\<open>for x in v\<close>: the elements of a list, the characters of a string, the keys of a
  dict; anything else is not iterable.
\<close>

definition py_iter :: "yaml \<Rightarrow> py_error + yaml list" where
  "py_iter v =
     (case v of
        YList xs \<Rightarrow> Inr xs
      | YStr s \<Rightarrow> Inr (map (\<lambda>c. YStr [c]) s)
      | YDict d \<Rightarrow> Inr (map (\<lambda>p. YStr (fst p)) d)
      | _ \<Rightarrow> Inl TypeError)"

text \<open>
  \<^verbatim>\<open>a + b\<close>: lists and strings are concatenated, integers and booleans are added as
  numbers, every other pair raises.
\<close>

fun py_add :: "yaml \<Rightarrow> yaml \<Rightarrow> py_error + yaml" where
  "py_add (YList a) (YList b) = Inr (YList (a @ b))"
| "py_add (YStr a) (YStr b) = Inr (YStr (a @ b))"
| "py_add (YInt a) (YInt b) = Inr (YInt (a + b))"
| "py_add (YInt a) (YBool b) = Inr (YInt (a + (if b then 1 else 0)))"
| "py_add (YBool a) (YInt b) = Inr (YInt ((if a then 1 else 0) + b))"
| "py_add (YBool a) (YBool b) = Inr (YInt ((if a then 1 else 0) + (if b then 1 else 0)))"
| "py_add a b = Inl TypeError"

text \<open>\<^verbatim>\<open>v.append(x)\<close>: only a list has the method.\<close>

definition py_append :: "yaml \<Rightarrow> yaml \<Rightarrow> py_error + yaml" where
  "py_append v x = (case v of YList xs \<Rightarrow> Inr (YList (xs @ [x])) | _ \<Rightarrow> Inl AttributeError)"

text \<open>
  The members of a Python set are compared by hash and equality: \<^verbatim>\<open>True\<close> and \<^verbatim>\<open>1\<close>
  are the same member, as are \<^verbatim>\<open>False\<close> and \<^verbatim>\<open>0\<close>; lists and dicts cannot be hashed.
\<close>

datatype hkey = KNone | KNum int | KStr string

definition py_hash :: "yaml \<Rightarrow> py_error + hkey" where
  "py_hash v =
     (case v of
        YNone \<Rightarrow> Inr KNone
      | YBool b \<Rightarrow> Inr (KNum (if b then 1 else 0))
      | YInt i \<Rightarrow> Inr (KNum i)
      | YStr s \<Rightarrow> Inr (KStr s)
      | _ \<Rightarrow> Inl TypeError)"

text \<open>A loop whose body may raise: the first error ends it.\<close>

fun mapM :: "('a \<Rightarrow> py_error + 'b) \<Rightarrow> 'a list \<Rightarrow> py_error + 'b list" where
  "mapM f [] = Inr []"
| "mapM f (x # xs) = bind (f x) (\<lambda>y. bind (mapM f xs) (\<lambda>ys. Inr (y # ys)))"

text \<open>
  What the defaults read from outside the document: the working directory of
  \<^verbatim>\<open>getcwd()\<close>, and the text that an f-string prints for a value that is not a
  string (Python's \<^verbatim>\<open>str\<close>); a string is printed as it is.
\<close>

record py_env =
  cwd :: string
  str_of :: "yaml \<Rightarrow> string"

definition fstr :: "py_env \<Rightarrow> yaml \<Rightarrow> string" where
  "fstr env v = (case v of YStr s \<Rightarrow> s | _ \<Rightarrow> str_of env v)"


section \<open>clustersConfig.py: the default cascade of ClustersConfig.\_\_init\_\_\<close>

text \<open>Lines 33 to 53: the defaults of the cluster \<^verbatim>\<open>cc\<close> itself.\<close>

definition cluster_defaults :: "py_env \<Rightarrow> yaml \<Rightarrow> py_error + yaml" where
  "cluster_defaults env cc0 =
     bind (set_default cc0 ''masters'' (YList [])) (\<lambda>cc.
     bind (set_default cc ''workers'' (YList [])) (\<lambda>cc.
     bind (py_in ''kubeconfig'' cc) (\<lambda>b.
     bind (if b then Inr cc
           else bind (py_getitem cc ''name'') (\<lambda>cn.
                py_setitem cc ''kubeconfig''
                  (YStr (path_join (cwd env) (''kubeconfig.'' @ fstr env cn))))) (\<lambda>cc.
     bind (set_default cc ''preconfig'' (YStr [])) (\<lambda>cc.
     bind (set_default cc ''postconfig'' (YStr [])) (\<lambda>cc.
     bind (set_default cc ''version'' (YStr ''4.13.0-ec.3'')) (\<lambda>cc.
     bind (set_default cc ''external_port'' (YStr ''auto'')) (\<lambda>cc.
     bind (set_default cc ''network_api_port'' (YStr ''auto'')) (\<lambda>cc.
     bind (set_default cc ''proxy'' YNone) (\<lambda>cc.
     set_default cc ''hosts'' (YList [])))))))))))"

text \<open>Lines 58 to 63: the body of the first loop over the nodes.\<close>

definition node_defaults1 :: "yaml \<Rightarrow> py_error + yaml" where
  "node_defaults1 n0 =
     bind (set_default n0 ''disk_size'' (YInt 48)) (\<lambda>n.
     bind (set_default n ''preallocated'' (YBool True)) (\<lambda>n.
     set_default n ''os_variant'' (YStr ''rhel8.6'')))"

text \<open>
  Lines 66 to 69: a host entry is appended for every node whose \<^verbatim>\<open>node\<close> value is
  not yet in the set \<^verbatim>\<open>node_names\<close>. The function returns the new value of
  \<^verbatim>\<open>cc["hosts"]\<close>.
\<close>

fun synth_hosts :: "yaml list \<Rightarrow> yaml \<Rightarrow> hkey list \<Rightarrow> py_error + yaml" where
  "synth_hosts [] hosts node_names = Inr hosts"
| "synth_hosts (h # rest) hosts node_names =
     bind (py_getitem h ''node'') (\<lambda>nd.
     bind (py_hash nd) (\<lambda>k.
     if k \<notin> set node_names
     then bind (py_append hosts (YDict [(''name'', nd)])) (\<lambda>hosts'.
          synth_hosts rest hosts' (k # node_names))
     else synth_hosts rest hosts node_names))"

text \<open>Lines 73 to 82: the body of the second loop over the nodes.\<close>

definition node_defaults2 :: "py_env \<Rightarrow> yaml \<Rightarrow> yaml \<Rightarrow> py_error + yaml" where
  "node_defaults2 env cc n0 =
     bind (set_default n0 ''bmc_ip'' YNone) (\<lambda>n.
     bind (set_default n ''bmc_user'' (YStr ''root'')) (\<lambda>n.
     bind (set_default n ''bmc_password'' (YStr ''calvin'')) (\<lambda>n.
     bind (py_in ''image_path'' n) (\<lambda>b.
     if b then Inr n
     else bind (py_getitem cc ''name'') (\<lambda>cn.
          bind (py_getitem n ''name'') (\<lambda>nn.
          py_setitem n ''image_path''
            (YStr (path_join (''/home/'' @ fstr env cn @ ''_guests_images'')
                             (fstr env nn @ ''.qcow2'')))))))))"

text \<open>Lines 84 to 91: the body of the loop over the host entries.\<close>

definition host_defaults :: "yaml \<Rightarrow> yaml \<Rightarrow> py_error + yaml" where
  "host_defaults cc host_config0 =
     bind (py_in ''network_api_port'' host_config0) (\<lambda>b.
     bind (if b then Inr host_config0
           else bind (py_getitem cc ''network_api_port'') (\<lambda>p.
                py_setitem host_config0 ''network_api_port'' p)) (\<lambda>host_config.
     bind (set_default host_config ''username'' (YStr ''core'')) (\<lambda>host_config.
     bind (set_default host_config ''password'' YNone) (\<lambda>host_config.
     set_default host_config ''pre_installed'' (YStr ''True'')))))"

text \<open>
  The loops change the nodes and the host entries in place. In the model the
  changed elements are put back where they came from: a list gets its new
  elements, anything else (on which the loops ran over nothing) stays.
\<close>

definition put_back :: "yaml \<Rightarrow> yaml list \<Rightarrow> yaml" where
  "put_back v xs = (case v of YList _ \<Rightarrow> YList xs | _ \<Rightarrow> v)"

definition seq_len :: "yaml \<Rightarrow> nat" where
  "seq_len v = (case v of YList xs \<Rightarrow> length xs | _ \<Rightarrow> 0)"

definition store :: "yaml \<Rightarrow> string \<Rightarrow> yaml \<Rightarrow> yaml" where
  "store cc key x = (case cc of YDict d \<Rightarrow> YDict (dict_update key x d) | _ \<Rightarrow> cc)"

text \<open>Lines 33 to 91: the body of the loop \<^verbatim>\<open>for cc in ...\<close>, for one cluster.\<close>

definition cascade :: "py_env \<Rightarrow> yaml \<Rightarrow> py_error + yaml" where
  "cascade env cc0 =
     bind (cluster_defaults env cc0) (\<lambda>cc.
     bind (py_getitem cc ''masters'') (\<lambda>ms.
     bind (py_getitem cc ''workers'') (\<lambda>ws.
     bind (py_add ms ws) (\<lambda>s.
     bind (py_iter s) (\<lambda>all_nodes0.
     bind (mapM node_defaults1 all_nodes0) (\<lambda>all_nodes1.
     bind (py_getitem cc ''hosts'') (\<lambda>hosts0.
     bind (py_iter hosts0) (\<lambda>hs0.
     bind (mapM (\<lambda>x. bind (py_getitem x ''name'') py_hash) hs0) (\<lambda>node_names.
     bind (synth_hosts all_nodes1 hosts0 node_names) (\<lambda>hosts1.
     bind (mapM (node_defaults2 env cc) all_nodes1) (\<lambda>all_nodes2.
     bind (py_iter hosts1) (\<lambda>hs1.
     bind (mapM (host_defaults cc) hs1) (\<lambda>hs2.
     Inr (store
            (store
               (store cc ''masters'' (put_back ms (take (seq_len ms) all_nodes2)))
               ''workers'' (put_back ws (drop (seq_len ms) all_nodes2)))
            ''hosts'' (put_back hosts1 hs2)))))))))))))))"

text \<open>
  \<^verbatim>\<open>_load_full_config\<close> keeps \<^verbatim>\<open>safe_load(...)["clusters"][0]\<close>. \<open>first_cluster\<close> is that
  expression on a parsed document.
\<close>

definition py_first :: "yaml \<Rightarrow> py_error + yaml" where
  "py_first v =
     (case v of
        YList xs \<Rightarrow> (case xs of [] \<Rightarrow> Inl IndexError | x # _ \<Rightarrow> Inr x)
      | YStr s \<Rightarrow> (case s of [] \<Rightarrow> Inl IndexError | c # _ \<Rightarrow> Inr (YStr [c]))
      | YDict d \<Rightarrow> Inl (KeyError ''0'')
      | _ \<Rightarrow> Inl TypeError)"

definition first_cluster :: "yaml \<Rightarrow> py_error + yaml" where
  "first_cluster doc = bind (py_getitem doc ''clusters'') py_first"

text \<open>
  \<^verbatim>\<open>ClustersConfig.__init__\<close>, from the two documents that \<^verbatim>\<open>_load_full_config\<close>
  parses: \<open>raw\<close>, the file as it is, from which \<^verbatim>\<open>_apply_jinja\<close> reads the name of the
  cluster, and \<open>rendered\<close>, the file after the template has been rendered (the
  rendering itself is the work of the \<^verbatim>\<open>jinja2\<close> library). The result is the final
  \<^verbatim>\<open>self.fullConfig\<close>. The loop of line 32 runs over \<^verbatim>\<open>self.fullConfig["clusters"]\<close>.
\<close>

definition ClustersConfig_init :: "py_env \<Rightarrow> yaml \<Rightarrow> yaml \<Rightarrow> py_error + yaml" where
  "ClustersConfig_init env raw rendered =
     bind (first_cluster raw) (\<lambda>fullConfig0.
     bind (py_getitem fullConfig0 ''name'') (\<lambda>cluster_name.
     bind (first_cluster rendered) (\<lambda>fullConfig.
     bind (py_getitem fullConfig ''clusters'') (\<lambda>clusters.
     bind (py_iter clusters) (\<lambda>ccs.
     bind (mapM (cascade env) ccs) (\<lambda>ccs'.
     Inr (store fullConfig ''clusters'' (put_back clusters ccs'))))))))"

text \<open>The accessors of \<^verbatim>\<open>ClustersConfig\<close> read \<^verbatim>\<open>self.fullConfig\<close> as one cluster.\<close>

definition all_nodes :: "yaml \<Rightarrow> py_error + yaml" where
  "all_nodes fullConfig =
     bind (py_getitem fullConfig ''masters'') (\<lambda>ms.
     bind (py_getitem fullConfig ''workers'') (\<lambda>ws. py_add ms ws))"

definition all_hosts :: "yaml \<Rightarrow> py_error + yaml" where
  "all_hosts fullConfig = py_getitem fullConfig ''hosts''"


section \<open>The statements about the default cascade\<close>

text \<open>
  The elements of a value that is a list, the field of a value that is a dict,
  and the set member that a value is; they are used on the results of runs that
  did not raise, where the list, the field and the member exist.
\<close>

definition elems :: "yaml \<Rightarrow> yaml list" where
  "elems v = (case v of YList xs \<Rightarrow> xs | _ \<Rightarrow> [])"

definition field :: "string \<Rightarrow> yaml \<Rightarrow> yaml option" where
  "field key v = (case v of YDict d \<Rightarrow> map_of d key | _ \<Rightarrow> None)"

definition seq_field :: "string \<Rightarrow> yaml \<Rightarrow> yaml list" where
  "seq_field key v = (case field key v of Some x \<Rightarrow> elems x | None \<Rightarrow> [])"

definition key_of :: "yaml option \<Rightarrow> hkey" where
  "key_of v = (case v of Some x \<Rightarrow> (case py_hash x of Inr k \<Rightarrow> k | Inl e \<Rightarrow> KNone) | None \<Rightarrow> KNone)"

text \<open>The distinct elements of a list, in the order of their first appearance.\<close>

fun first_seen :: "'a list \<Rightarrow> 'a list" where
  "first_seen [] = []"
| "first_seen (x # xs) = x # first_seen (filter (\<lambda>y. y \<noteq> x) xs)"


text \<open>Examples: an environment, and two clusters.\<close>

definition env_ex :: py_env where
  "env_ex = \<lparr>cwd = ''/root/cda'', str_of = (\<lambda>v. ''?'')\<rparr>"

definition cluster_ex :: yaml where
  "cluster_ex =
     YDict [(''name'', YStr ''c1''),
            (''masters'', YList [YDict [(''name'', YStr ''m1''), (''node'', YStr ''a'')],
                                 YDict [(''name'', YStr ''m2''), (''node'', YStr ''b'')]]),
            (''workers'', YList [YDict [(''name'', YStr ''w1''), (''node'', YStr ''a'')]])]"

definition cluster_with_hosts_ex :: yaml where
  "cluster_with_hosts_ex =
     YDict [(''name'', YStr ''c1''),
            (''masters'', YList [YDict [(''name'', YStr ''m1''), (''node'', YStr ''a'')]]),
            (''hosts'', YList [YDict [(''name'', YStr ''x''), (''pre_installed'', YBool False)]])]"

definition document_ex :: yaml where
  "document_ex = YDict [(''clusters'', YList [YDict [(''name'', YStr ''c1'')]])]"


section \<open>Auxiliary notions for the default cascade\<close>

text \<open>The value is a dict.\<close>

definition is_dict :: "yaml \<Rightarrow> bool" where
  "is_dict v = (case v of YDict d \<Rightarrow> True | _ \<Rightarrow> False)"

text \<open>The \<^verbatim>\<open>node\<close> value of a node, the name of the host it is on.\<close>

definition node_value :: "yaml \<Rightarrow> yaml" where
  "node_value n = (case field ''node'' n of Some x \<Rightarrow> x | None \<Rightarrow> YNone)"

text \<open>
  The members of the list \<open>nds\<close> whose set member is not in \<open>seen\<close>, each once, in
  the order of their first appearance: the values for which the loop of lines 66
  to 69 appends a host entry, \<open>seen\<close> being the set \<^verbatim>\<open>node_names\<close> before the loop.
\<close>

fun fresh :: "hkey list \<Rightarrow> yaml list \<Rightarrow> yaml list" where
  "fresh seen [] = []"
| "fresh seen (nd # nds) =
     (if key_of (Some nd) \<in> set seen then fresh seen nds
      else nd # fresh (key_of (Some nd) # seen) nds)"

text \<open>
  The names of the host entries of a cluster and the \<^verbatim>\<open>node\<close> values of its nodes
  (masters, then workers), as members of a set; and the host entries that the
  cascade works on: the entries of the cluster followed by a new entry
  \<^verbatim>\<open>{"name": nd}\<close> for each \<^verbatim>\<open>node\<close> value that is not yet a name.
\<close>

definition host_names :: "yaml \<Rightarrow> hkey list" where
  "host_names cc = map (\<lambda>h. key_of (field ''name'' h)) (seq_field ''hosts'' cc)"

definition node_hosts :: "yaml \<Rightarrow> hkey list" where
  "node_hosts cc =
     map (\<lambda>n. key_of (field ''node'' n)) (seq_field ''masters'' cc @ seq_field ''workers'' cc)"

definition host_entries :: "yaml \<Rightarrow> yaml list" where
  "host_entries cc =
     seq_field ''hosts'' cc
     @ map (\<lambda>nd. YDict [(''name'', nd)])
         (fresh (host_names cc)
                (map node_value (seq_field ''masters'' cc @ seq_field ''workers'' cc)))"


text \<open>
  \<open>defaulted D a b\<close>: the dict \<open>b\<close> has the fields of \<open>a\<close>, with their values, and for
  a key that \<open>a\<close> lacks the value that the list of defaults \<open>D\<close> gives it. The
  relations below say this of a cluster, of a node and of a host entry, with the
  defaults of the source; a node must have a \<^verbatim>\<open>node\<close> value and a host entry a name,
  both usable as members of a set.
\<close>

definition defaulted :: "(string \<times> yaml) list \<Rightarrow> yaml \<Rightarrow> yaml \<Rightarrow> bool" where
  "defaulted D a b =
     (is_dict b \<and> (\<forall>k. field k b = (case field k a of Some y \<Rightarrow> Some y | None \<Rightarrow> map_of D k)))"

abbreviation (input) cluster_dflt :: "yaml \<Rightarrow> (string \<times> yaml) list" where
  "cluster_dflt kc \<equiv> [(''masters'', YList []), (''workers'', YList []), (''kubeconfig'', kc),
            (''preconfig'', YStr []), (''postconfig'', YStr []), (''version'', YStr ''4.13.0-ec.3''),
            (''external_port'', YStr ''auto''), (''network_api_port'', YStr ''auto''),
            (''proxy'', YNone), (''hosts'', YList [])]"

definition node_rel :: "yaml \<Rightarrow> yaml \<Rightarrow> bool" where
  "node_rel n n2 =
     (is_dict n \<and> is_dict n2
      \<and> (\<exists>nd k. field ''node'' n = Some nd \<and> py_hash nd = Inr k)
      \<and> (\<exists>img. \<forall>k. field k n2 = (case field k n of Some y \<Rightarrow> Some y
            | None \<Rightarrow> map_of [(''disk_size'', YInt 48), (''preallocated'', YBool True),
                               (''os_variant'', YStr ''rhel8.6''), (''bmc_ip'', YNone),
                               (''bmc_user'', YStr ''root''), (''bmc_password'', YStr ''calvin''),
                               (''image_path'', img)] k)))"

definition host_rel :: "yaml \<Rightarrow> yaml \<Rightarrow> yaml \<Rightarrow> bool" where
  "host_rel cc h h2 =
     (is_dict h \<and> is_dict h2
      \<and> (\<exists>nm k. field ''name'' h = Some nm \<and> py_hash nm = Inr k)
      \<and> (\<exists>p. field ''network_api_port'' cc = Some p
           \<and> (\<forall>k. field k h2 = (case field k h of Some y \<Rightarrow> Some y
            | None \<Rightarrow> map_of [(''network_api_port'', p), (''username'', YStr ''core''),
                               (''password'', YNone), (''pre_installed'', YStr ''True'')] k))))"

text \<open>The results of the cascade on the example clusters, and a third example.\<close>

definition cluster_ex_resolved :: yaml where
  "cluster_ex_resolved =
     YDict
       [(''name'', YStr ''c1''),
        (''masters'',
         YList
          [YDict
            [(''name'', YStr ''m1''), (''node'', YStr ''a''),
             (''disk_size'', YInt 48), (''preallocated'', YBool True),
             (''os_variant'', YStr ''rhel8.6''), (''bmc_ip'', YNone),
             (''bmc_user'', YStr ''root''),
             (''bmc_password'', YStr ''calvin''),
             (''image_path'', YStr ''/home/c1_guests_images/m1.qcow2'')],
           YDict
            [(''name'', YStr ''m2''), (''node'', YStr ''b''),
             (''disk_size'', YInt 48), (''preallocated'', YBool True),
             (''os_variant'', YStr ''rhel8.6''), (''bmc_ip'', YNone),
             (''bmc_user'', YStr ''root''),
             (''bmc_password'', YStr ''calvin''),
             (''image_path'', YStr ''/home/c1_guests_images/m2.qcow2'')]]),
        (''workers'',
         YList
          [YDict
            [(''name'', YStr ''w1''), (''node'', YStr ''a''),
             (''disk_size'', YInt 48), (''preallocated'', YBool True),
             (''os_variant'', YStr ''rhel8.6''), (''bmc_ip'', YNone),
             (''bmc_user'', YStr ''root''),
             (''bmc_password'', YStr ''calvin''),
             (''image_path'', YStr ''/home/c1_guests_images/w1.qcow2'')]]),
        (''kubeconfig'', YStr ''/root/cda/kubeconfig.c1''),
        (''preconfig'', YStr []), (''postconfig'', YStr []),
        (''version'', YStr ''4.13.0-ec.3''),
        (''external_port'', YStr ''auto''),
        (''network_api_port'', YStr ''auto''), (''proxy'', YNone),
        (''hosts'',
         YList
          [YDict
            [(''name'', YStr ''a''), (''network_api_port'', YStr ''auto''),
             (''username'', YStr ''core''), (''password'', YNone),
             (''pre_installed'', YStr ''True'')],
           YDict
            [(''name'', YStr ''b''), (''network_api_port'', YStr ''auto''),
             (''username'', YStr ''core''), (''password'', YNone),
             (''pre_installed'', YStr ''True'')]])]"

definition cluster_with_hosts_resolved :: yaml where
  "cluster_with_hosts_resolved =
     YDict
       [(''name'', YStr ''c1''),
        (''masters'',
         YList
          [YDict
            [(''name'', YStr ''m1''), (''node'', YStr ''a''),
             (''disk_size'', YInt 48), (''preallocated'', YBool True),
             (''os_variant'', YStr ''rhel8.6''), (''bmc_ip'', YNone),
             (''bmc_user'', YStr ''root''),
             (''bmc_password'', YStr ''calvin''),
             (''image_path'', YStr ''/home/c1_guests_images/m1.qcow2'')]]),
        (''hosts'',
         YList
          [YDict
            [(''name'', YStr ''x''), (''pre_installed'', YBool False),
             (''network_api_port'', YStr ''auto''),
             (''username'', YStr ''core''), (''password'', YNone)],
           YDict
            [(''name'', YStr ''a''), (''network_api_port'', YStr ''auto''),
             (''username'', YStr ''core''), (''password'', YNone),
             (''pre_installed'', YStr ''True'')]]),
        (''workers'', YList []),
        (''kubeconfig'', YStr ''/root/cda/kubeconfig.c1''),
        (''preconfig'', YStr []), (''postconfig'', YStr []),
        (''version'', YStr ''4.13.0-ec.3''),
        (''external_port'', YStr ''auto''),
        (''network_api_port'', YStr ''auto''), (''proxy'', YNone)]"

definition cluster_hosts_order_ex :: yaml where
  "cluster_hosts_order_ex =
     YDict [(''name'', YStr ''c1''),
            (''masters'', YList [YDict [(''name'', YStr ''m1''), (''node'', YStr ''a'')],
                                 YDict [(''name'', YStr ''m2''), (''node'', YStr ''b'')]]),
            (''hosts'', YList [YDict [(''name'', YStr ''b'')], YDict [(''name'', YStr ''x'')]])]"


section \<open>Properties of the template functions\<close>

lemma re_sub_non_digits_filter:
  "re_sub_non_digits s = filter (\<lambda>c. c \<in> set ''0123456789'') s"
  by (induction s) (simp_all add: is_digit_def)

text \<open>
  Claim C8. \<^verbatim>\<open>worker_number(index)\<close> returns the name of worker \<open>index\<close> of the
  cluster of the invoking host with every character that is not a digit removed,
  the digits keeping their order: whenever the host is known and the index is in
  range, the result is the sequence of the digits of that name. For a worker
  named \<^verbatim>\<open>worker-12\<close> it is \<^verbatim>\<open>12\<close>, for one named \<^verbatim>\<open>bf-worker-3b\<close> it is \<^verbatim>\<open>3\<close>.
\<close>

theorem worker_number_strips_non_digits:
  "(ensure_clusters_loaded all_cluster_info hostname_out clusters = Inr ci \<longrightarrow>
    py_index (workers ci) a = Inr w \<longrightarrow>
      worker_number all_cluster_info hostname_out clusters a
        = Inr (filter (\<lambda>c. c \<in> set ''0123456789'') w, Some ci))
   \<and> (ensure_clusters_loaded all_cluster_info hostname_out clusters = Inr ci \<longrightarrow>
      py_index (workers ci) a = Inr ''worker-12'' \<longrightarrow>
        worker_number all_cluster_info hostname_out clusters a = Inr (''12'', Some ci))
   \<and> (ensure_clusters_loaded all_cluster_info hostname_out clusters = Inr ci \<longrightarrow>
      py_index (workers ci) a = Inr ''bf-worker-3b'' \<longrightarrow>
        worker_number all_cluster_info hostname_out clusters a = Inr (''3'', Some ci))"
  by (simp add: worker_number_def bind_def re_sub_non_digits_filter)

theorem worker_number_strips_non_digits_witness:
  "worker_number
     [''host1'' \<mapsto> \<lparr>workers = [''worker-12'', ''bf-worker-3b''], network_api_port = ''eno1''\<rparr>]
     ''host1.example.com'' None 0
   = Inr (''12'', Some \<lparr>workers = [''worker-12'', ''bf-worker-3b''], network_api_port = ''eno1''\<rparr>)
   \<and> worker_number
     [''host1'' \<mapsto> \<lparr>workers = [''worker-12'', ''bf-worker-3b''], network_api_port = ''eno1''\<rparr>]
     ''host1.example.com'' None 1
   = Inr (''3'', Some \<lparr>workers = [''worker-12'', ''bf-worker-3b''], network_api_port = ''eno1''\<rparr>)"
  using
    worker_number_strips_non_digits
      [of "[''host1'' \<mapsto> \<lparr>workers = [''worker-12'', ''bf-worker-3b''], network_api_port = ''eno1''\<rparr>]"
          "''host1.example.com''" None
          "\<lparr>workers = [''worker-12'', ''bf-worker-3b''], network_api_port = ''eno1''\<rparr>" 0 "''worker-12''"]
    worker_number_strips_non_digits
      [of "[''host1'' \<mapsto> \<lparr>workers = [''worker-12'', ''bf-worker-3b''], network_api_port = ''eno1''\<rparr>]"
          "''host1.example.com''" None
          "\<lparr>workers = [''worker-12'', ''bf-worker-3b''], network_api_port = ''eno1''\<rparr>" 1 "''bf-worker-3b''"]
  by (simp add: ensure_clusters_loaded_def current_host_def strip_def py_isspace_def py_index_def)

section \<open>Properties of setup\_dhcp\_entry\<close>

lemmas act_defs = andthen_def run_def run_or_die_def finish_def error_and_exit_def sys_exit_def
  write_file_def read_file_def sleep_def

lemma setup_dhcp_entry_None:
  "ip cfg = None \<Longrightarrow> setup_dhcp_entry h cfg t0 = (Inl SystemExit, t0)"
  by (simp add: setup_dhcp_entry_def error_and_exit_def)

text \<open>
  The runs of \<^verbatim>\<open>setup_dhcp_entry\<close> for a node with an IP address, the four commands
  being named.
\<close>

lemma setup_dhcp_entry_Some:
  assumes "ip cfg = Some i"
    and "dump = ''virsh net-dumpxml default''"
    and "del = ''virsh net-update default delete ip-dhcp-host '' @ dq
                @ ''<host name='' @ sq @ name cfg @ sq @ ''/>'' @ dq @ '' --live --config''"
    and "leases = ''virsh net-dhcp-leases default''"
    and "add = ''virsh net-update default add ip-dhcp-host '' @ dq
                @ ''<host mac='' @ sq @ fmt_opt (mac cfg) @ sq @ '' name='' @ sq @ name cfg @ sq
                @ '' ip='' @ sq @ i @ sq @ ''/>'' @ dq @ '' --live --config''"
  shows "setup_dhcp_entry h cfg t0 =
     (if returncode (respond h t0 dump) \<noteq> 0 then (Inl SystemExit, t0 @ [Ran dump])
      else if str_contains (out (respond h t0 dump)) (sq @ name cfg @ sq)
      then
        (if returncode (respond h (t0 @ [Ran dump]) del) \<noteq> 0
         then (Inl SystemExit, t0 @ [Ran dump, Ran del])
         else if str_contains (out (respond h (t0 @ [Ran dump, Ran del]) leases)) (name cfg @ '' '')
         then (Inl SystemExit, t0 @ [Ran dump, Ran del, Ran leases])
         else
           (if returncode (respond h (t0 @ [Ran dump, Ran del, Ran leases]) add) \<noteq> 0
            then Inl SystemExit else Inr (),
            t0 @ [Ran dump, Ran del, Ran leases, Ran add]))
      else
        (if str_contains (out (respond h (t0 @ [Ran dump]) leases)) (name cfg @ '' '')
         then (Inl SystemExit, t0 @ [Ran dump, Ran leases])
         else
           (if returncode (respond h (t0 @ [Ran dump, Ran leases]) add) \<noteq> 0
            then Inl SystemExit else Inr (),
            t0 @ [Ran dump, Ran leases, Ran add])))"
  unfolding assms(2-5)
  by (simp add: setup_dhcp_entry_def act_defs Let_def assms(1))

text \<open>
  Claim C5. If the output of \<^verbatim>\<open>virsh net-dhcp-leases default\<close> contains the name of
  the node followed by a space (whenever that command is run), then
  \<^verbatim>\<open>setup_dhcp_entry\<close> ends fatally and runs no command adding a static DHCP entry;
  nothing is supposed of the output of \<^verbatim>\<open>virsh net-dumpxml default\<close>, so this holds
  also when the name is not among the static leases. If that output does not
  contain the name followed by a space (as when it has only a longer name of
  which the node's name is a beginning), the node has an IP address and every
  command exits with zero, then \<^verbatim>\<open>setup_dhcp_entry\<close> does not abort: it returns
  and has run the command adding the entry.
\<close>

theorem setup_dhcp_entry_active_lease_aborts:
  "((\<forall>(c, r) \<in> set (answers h t0 (new_events (setup_dhcp_entry h cfg) t0)).
        c = ''virsh net-dhcp-leases default'' \<longrightarrow> str_contains (out r) (name cfg @ '' ''))
      \<longrightarrow> fst (setup_dhcp_entry h cfg t0) = Inl SystemExit
         \<and> (\<forall>c \<in> set (cmds (new_events (setup_dhcp_entry h cfg) t0)).
               \<not> starts_with c ''virsh net-update default add ip-dhcp-host''))
   \<and> ((\<forall>(c, r) \<in> set (answers h t0 (new_events (setup_dhcp_entry h cfg) t0)).
          returncode r = 0
          \<and> (c = ''virsh net-dhcp-leases default'' \<longrightarrow> \<not> str_contains (out r) (name cfg @ '' '')))
      \<longrightarrow> ip cfg \<noteq> None
      \<longrightarrow> fst (setup_dhcp_entry h cfg t0) = Inr ()
         \<and> ''virsh net-update default add ip-dhcp-host '' @ dq
              @ ''<host mac='' @ sq @ fmt_opt (mac cfg) @ sq @ '' name='' @ sq @ name cfg @ sq
              @ '' ip='' @ sq @ fmt_opt (ip cfg) @ sq @ ''/>'' @ dq @ '' --live --config''
            \<in> set (cmds (new_events (setup_dhcp_entry h cfg) t0)))"
proof -
  define P where "P = ''virsh net-update default add ip-dhcp-host''"
  define dump where "dump = ''virsh net-dumpxml default''"
  define del where "del = ''virsh net-update default delete ip-dhcp-host '' @ dq
                @ ''<host name='' @ sq @ name cfg @ sq @ ''/>'' @ dq @ '' --live --config''"
  define leases where "leases = ''virsh net-dhcp-leases default''"
  have f1: "dump \<noteq> leases" "del \<noteq> leases" "\<not> starts_with dump P" "\<not> starts_with del P"
     "\<not> starts_with leases P"
    by (simp_all add: dump_def del_def leases_def P_def)
  show ?thesis
  proof (cases "ip cfg")
    case None
    then show ?thesis
      by (simp add: setup_dhcp_entry_None new_events_def)
  next
    case (Some j)
    define add where "add = ''virsh net-update default add ip-dhcp-host '' @ dq
                @ ''<host mac='' @ sq @ fmt_opt (mac cfg) @ sq @ '' name='' @ sq @ name cfg @ sq
                @ '' ip='' @ sq @ j @ sq @ ''/>'' @ dq @ '' --live --config''"
    have f2: "add \<noteq> leases" by (simp add: add_def leases_def)
    have f3: "fmt_opt (ip cfg) = j" by (simp add: Some fmt_opt_def)
    note eq = setup_dhcp_entry_Some[OF Some dump_def del_def leases_def add_def, of h t0]
    show ?thesis
      unfolding f3 leases_def[symmetric] P_def[symmetric] add_def[symmetric]
      by (simp add: eq new_events_def f1 f2 split: if_splits)
  qed
qed

theorem setup_dhcp_entry_active_lease_aborts_witness:
  "fst (setup_dhcp_entry (quiet_host [] ''52:54:00:aa:bb:02 192.168.122.12/24 worker-2 -'')
          node_w2 []) = Inl SystemExit
   \<and> cmds (new_events
        (setup_dhcp_entry (quiet_host [] ''52:54:00:aa:bb:02 192.168.122.12/24 worker-2 -'')
           node_w2) [])
       = [''virsh net-dumpxml default'', ''virsh net-dhcp-leases default'']
   \<and> fst (setup_dhcp_entry (quiet_host [] ''52:54:00:aa:bb:14 192.168.122.30/24 worker-20 -'')
          node_w2 []) = Inr ()
   \<and> cmds (new_events
        (setup_dhcp_entry (quiet_host [] ''52:54:00:aa:bb:14 192.168.122.30/24 worker-20 -'')
           node_w2) [])
       = [''virsh net-dumpxml default'', ''virsh net-dhcp-leases default'',
          ''virsh net-update default add ip-dhcp-host '' @ dq
            @ ''<host mac='' @ sq @ ''None'' @ sq @ '' name='' @ sq @ ''worker-2'' @ sq
            @ '' ip='' @ sq @ ''192.168.122.12'' @ sq @ ''/>'' @ dq @ '' --live --config'']"
  using
    setup_dhcp_entry_active_lease_aborts
      [of "quiet_host [] ''52:54:00:aa:bb:02 192.168.122.12/24 worker-2 -''" "[]" node_w2]
    setup_dhcp_entry_active_lease_aborts
      [of "quiet_host [] ''52:54:00:aa:bb:14 192.168.122.30/24 worker-20 -''" "[]" node_w2]
  by (simp add: setup_dhcp_entry_def act_defs new_events_def quiet_host_def node_w2_def
        fmt_opt_def)

text \<open>
  Claim C6. If the output of \<^verbatim>\<open>virsh net-dumpxml default\<close> contains the name of the
  node between single quotes (whatever MAC address stands beside it), then every
  command of \<^verbatim>\<open>setup_dhcp_entry\<close> adding a static DHCP entry comes strictly after the
  command deleting the entry of that name, and that command is run whenever the
  node has an IP address and \<^verbatim>\<open>net-dumpxml\<close> exits with zero. If the output does not
  contain the quoted name, no command deleting a static DHCP entry is run.
\<close>

theorem setup_dhcp_entry_deletes_stale_entry:
  "(str_contains (out (respond h t0 ''virsh net-dumpxml default'')) (sq @ name cfg @ sq) \<longrightarrow>
      (\<forall>i < length (cmds (new_events (setup_dhcp_entry h cfg) t0)).
         starts_with (cmds (new_events (setup_dhcp_entry h cfg) t0) ! i)
           ''virsh net-update default add ip-dhcp-host''
         \<longrightarrow> (\<exists>j < i. cmds (new_events (setup_dhcp_entry h cfg) t0) ! j =
                ''virsh net-update default delete ip-dhcp-host '' @ dq
                  @ ''<host name='' @ sq @ name cfg @ sq @ ''/>'' @ dq @ '' --live --config''))
      \<and> (ip cfg \<noteq> None \<and> returncode (respond h t0 ''virsh net-dumpxml default'') = 0 \<longrightarrow>
           ''virsh net-update default delete ip-dhcp-host '' @ dq
             @ ''<host name='' @ sq @ name cfg @ sq @ ''/>'' @ dq @ '' --live --config''
           \<in> set (cmds (new_events (setup_dhcp_entry h cfg) t0))))
   \<and> (\<not> str_contains (out (respond h t0 ''virsh net-dumpxml default'')) (sq @ name cfg @ sq) \<longrightarrow>
        (\<forall>c \<in> set (cmds (new_events (setup_dhcp_entry h cfg) t0)).
           \<not> starts_with c ''virsh net-update default delete ip-dhcp-host''))"
proof -
  define P where "P = ''virsh net-update default add ip-dhcp-host''"
  define Q where "Q = ''virsh net-update default delete ip-dhcp-host''"
  define dump where "dump = ''virsh net-dumpxml default''"
  define del where "del = ''virsh net-update default delete ip-dhcp-host '' @ dq
                @ ''<host name='' @ sq @ name cfg @ sq @ ''/>'' @ dq @ '' --live --config''"
  define leases where "leases = ''virsh net-dhcp-leases default''"
  have f1: "\<not> starts_with dump P" "\<not> starts_with del P" "\<not> starts_with leases P"
     "\<not> starts_with dump Q" "\<not> starts_with leases Q"
    by (simp_all add: dump_def del_def leases_def P_def Q_def)
  show ?thesis
  proof (cases "ip cfg")
    case None
    then show ?thesis
      by (simp add: setup_dhcp_entry_None new_events_def)
  next
    case (Some j)
    define add where "add = ''virsh net-update default add ip-dhcp-host '' @ dq
                @ ''<host mac='' @ sq @ fmt_opt (mac cfg) @ sq @ '' name='' @ sq @ name cfg @ sq
                @ '' ip='' @ sq @ j @ sq @ ''/>'' @ dq @ '' --live --config''"
    have f2: "\<not> starts_with add Q" by (simp add: add_def Q_def)
    note eq = setup_dhcp_entry_Some[OF Some dump_def del_def leases_def add_def, of h t0]
    show ?thesis
      unfolding dump_def[symmetric] P_def[symmetric] Q_def[symmetric] del_def[symmetric]
      by (auto simp add: eq new_events_def f1 f2 Some nth_Cons split: nat.splits)
  qed
qed

theorem setup_dhcp_entry_deletes_stale_entry_witness:
  "cmds (new_events
     (setup_dhcp_entry
        (quiet_host (''<host mac='' @ sq @ ''52:54:00:aa:bb:99'' @ sq @ '' name='' @ sq
                       @ ''worker-2'' @ sq @ '' ip='' @ sq @ ''192.168.122.12'' @ sq @ ''/>'') [])
        node_w2) [])
     = [''virsh net-dumpxml default'',
        ''virsh net-update default delete ip-dhcp-host '' @ dq
          @ ''<host name='' @ sq @ ''worker-2'' @ sq @ ''/>'' @ dq @ '' --live --config'',
        ''virsh net-dhcp-leases default'',
        ''virsh net-update default add ip-dhcp-host '' @ dq
          @ ''<host mac='' @ sq @ ''None'' @ sq @ '' name='' @ sq @ ''worker-2'' @ sq
          @ '' ip='' @ sq @ ''192.168.122.12'' @ sq @ ''/>'' @ dq @ '' --live --config'']
   \<and> cmds (new_events
     (setup_dhcp_entry
        (quiet_host (''<host mac='' @ sq @ ''52:54:00:aa:bb:99'' @ sq @ '' name='' @ sq
                       @ ''worker-20'' @ sq @ '' ip='' @ sq @ ''192.168.122.30'' @ sq @ ''/>'') [])
        node_w2) [])
     = [''virsh net-dumpxml default'',
        ''virsh net-dhcp-leases default'',
        ''virsh net-update default add ip-dhcp-host '' @ dq
          @ ''<host mac='' @ sq @ ''None'' @ sq @ '' name='' @ sq @ ''worker-2'' @ sq
          @ '' ip='' @ sq @ ''192.168.122.12'' @ sq @ ''/>'' @ dq @ '' --live --config'']"
  using
    setup_dhcp_entry_deletes_stale_entry
      [of "quiet_host (''<host mac='' @ sq @ ''52:54:00:aa:bb:99'' @ sq @ '' name='' @ sq
                       @ ''worker-2'' @ sq @ '' ip='' @ sq @ ''192.168.122.12'' @ sq @ ''/>'') []"
          "[]" node_w2]
    setup_dhcp_entry_deletes_stale_entry
      [of "quiet_host (''<host mac='' @ sq @ ''52:54:00:aa:bb:99'' @ sq @ '' name='' @ sq
                       @ ''worker-20'' @ sq @ '' ip='' @ sq @ ''192.168.122.30'' @ sq @ ''/>'') []"
          "[]" node_w2]
  by (simp add: setup_dhcp_entry_def act_defs new_events_def quiet_host_def node_w2_def
        fmt_opt_def)

text \<open>
  Claim C10, as stated: \<^verbatim>\<open>setup_dhcp_entry\<close> ends fatally if and only if the node has
  no IP address or its name, followed by a space, is in the active leases. On the
  host below the node has an IP address and the leases output is empty, yet the
  run ends fatally, because the command adding the entry, run through
  \<^verbatim>\<open>run_or_die\<close>, exits with 1.
\<close>

theorem setup_dhcp_entry_fatal_iff_counterexample:
  "setup_dhcp_entry add_fails_host node_w2 [] =
     (Inl SystemExit,
      [Ran ''virsh net-dumpxml default'', Ran ''virsh net-dhcp-leases default'',
       Ran (''virsh net-update default add ip-dhcp-host '' @ dq
            @ ''<host mac='' @ sq @ ''None'' @ sq @ '' name='' @ sq @ ''worker-2'' @ sq
            @ '' ip='' @ sq @ ''192.168.122.12'' @ sq @ ''/>'' @ dq @ '' --live --config'')])
   \<and> ip node_w2 \<noteq> None
   \<and> \<not> str_contains
         (out (respond add_fails_host [Ran ''virsh net-dumpxml default'']
                 ''virsh net-dhcp-leases default''))
         (name node_w2 @ '' '')"
  by (simp add: setup_dhcp_entry_def act_defs add_fails_host_def node_w2_def fmt_opt_def)

text \<open>
  Claim C10, amended. \<^verbatim>\<open>setup_dhcp_entry\<close> either returns or ends fatally, and it
  ends fatally if and only if the node has no IP address, or the leases output
  it got contains the name followed by a space, or one of the other commands it
  ran (\<^verbatim>\<open>net-dumpxml\<close>, the deletion and the addition of the entry, all three run
  through \<^verbatim>\<open>run_or_die\<close>) exited with a non-zero code. The MAC address is never
  tested: when the run returns, its last command is the addition of the entry,
  with the MAC address as the f-string prints it, which is \<^verbatim>\<open>None\<close> for a node
  without one.
\<close>

theorem setup_dhcp_entry_fatal_conditions:
  "(fst (setup_dhcp_entry h cfg t0) = Inl SystemExit \<or> fst (setup_dhcp_entry h cfg t0) = Inr ())
   \<and> (fst (setup_dhcp_entry h cfg t0) = Inl SystemExit \<longleftrightarrow>
        ip cfg = None
        \<or> (\<exists>(c, r) \<in> set (answers h t0 (new_events (setup_dhcp_entry h cfg) t0)).
              if c = ''virsh net-dhcp-leases default''
              then str_contains (out r) (name cfg @ '' '')
              else returncode r \<noteq> 0))
   \<and> (fst (setup_dhcp_entry h cfg t0) = Inr () \<longrightarrow>
        last (cmds (new_events (setup_dhcp_entry h cfg) t0)) =
          ''virsh net-update default add ip-dhcp-host '' @ dq
            @ ''<host mac='' @ sq @ fmt_opt (mac cfg) @ sq @ '' name='' @ sq @ name cfg @ sq
            @ '' ip='' @ sq @ fmt_opt (ip cfg) @ sq @ ''/>'' @ dq @ '' --live --config'')
   \<and> fmt_opt None = ''None''"
proof -
  define dump where "dump = ''virsh net-dumpxml default''"
  define del where "del = ''virsh net-update default delete ip-dhcp-host '' @ dq
                @ ''<host name='' @ sq @ name cfg @ sq @ ''/>'' @ dq @ '' --live --config''"
  define leases where "leases = ''virsh net-dhcp-leases default''"
  have f1: "dump \<noteq> leases" "del \<noteq> leases"
    by (simp_all add: dump_def del_def leases_def)
  have f0: "fmt_opt None = ''None''"
    by (simp add: fmt_opt_def)
  show ?thesis
  proof (cases "ip cfg")
    case None
    then show ?thesis
      by (simp add: setup_dhcp_entry_None new_events_def f0)
  next
    case (Some j)
    define add where "add = ''virsh net-update default add ip-dhcp-host '' @ dq
                @ ''<host mac='' @ sq @ fmt_opt (mac cfg) @ sq @ '' name='' @ sq @ name cfg @ sq
                @ '' ip='' @ sq @ j @ sq @ ''/>'' @ dq @ '' --live --config''"
    have f2: "add \<noteq> leases" by (simp add: add_def leases_def)
    have f3: "fmt_opt (ip cfg) = j" by (simp add: Some fmt_opt_def)
    note eq = setup_dhcp_entry_Some[OF Some dump_def del_def leases_def add_def, of h t0]
    show ?thesis
      unfolding f3 f0 leases_def[symmetric] add_def[symmetric]
      by (simp add: eq new_events_def f1 f2 Some)
  qed
qed

theorem setup_dhcp_entry_fatal_conditions_witness:
  "fst (setup_dhcp_entry add_fails_host node_w2 []) = Inl SystemExit
   \<and> fst (setup_dhcp_entry (quiet_host [] []) node_w2 []) = Inr ()
   \<and> last (cmds (new_events (setup_dhcp_entry (quiet_host [] []) node_w2) [])) =
       ''virsh net-update default add ip-dhcp-host '' @ dq
         @ ''<host mac='' @ sq @ ''None'' @ sq @ '' name='' @ sq @ ''worker-2'' @ sq
         @ '' ip='' @ sq @ ''192.168.122.12'' @ sq @ ''/>'' @ dq @ '' --live --config''"
  using
    setup_dhcp_entry_fatal_conditions [of add_fails_host node_w2 "[]"]
    setup_dhcp_entry_fatal_conditions [of "quiet_host [] []" node_w2 "[]"]
  by (simp add: setup_dhcp_entry_def act_defs new_events_def quiet_host_def add_fails_host_def
        node_w2_def fmt_opt_def)


section \<open>Properties of configure\<close>

text \<open>The runs of the parts of \<^verbatim>\<open>configure\<close>, their commands being named.\<close>

lemma ensure_started_cases:
  assumes "destroy = ''virsh net-destroy default''"
    and "undefine = ''virsh net-undefine default''"
    and "linkdel = ''ip link delete virbr0''"
    and "define = ''virsh net-define '' @ bridge_xml"
    and "down = ''ip link set '' @ api @ '' down''"
    and "start = ''virsh net-start default''"
    and "up = ''ip link set '' @ api @ '' up''"
  shows "ensure_started h api bridge_xml t0 =
     (if returncode (respond h (t0 @ [Ran destroy]) undefine) \<noteq> 0
         \<and> \<not> str_contains (err (respond h (t0 @ [Ran destroy]) undefine)) ''Network not found''
      then (Inl SystemExit, t0 @ [Ran destroy, Ran undefine])
      else if returncode (respond h (t0 @ [Ran destroy, Ran undefine, Ran linkdel]) define) \<noteq> 0
      then (Inl SystemExit, t0 @ [Ran destroy, Ran undefine, Ran linkdel, Ran define])
      else if returncode (respond h (t0 @ [Ran destroy, Ran undefine, Ran linkdel, Ran define, Ran down]) start) \<noteq> 0
      then (Inl SystemExit, t0 @ [Ran destroy, Ran undefine, Ran linkdel, Ran define, Ran down, Ran start])
      else (Inr (), t0 @ [Ran destroy, Ran undefine, Ran linkdel, Ran define, Ran down, Ran start, Ran up]))"
  unfolding assms
  by (simp add: ensure_started_def act_defs Let_def)

lemma limit_dhcp_range_cases:
  assumes "dump = ''virsh net-dumpxml default''"
    and "delr = ''virsh net-update default delete ip-dhcp-range '' @ dq @
                 (''<range start='' @ sq @ old_range @ sq @ '' end='' @ sq @ ''192.168.122.254'' @ sq @ ''/>'')
                 @ dq @ '' --live --config''"
    and "addr = ''virsh net-update default add ip-dhcp-range '' @ dq @
                 (''<range start='' @ sq @ new_range @ sq @ '' end='' @ sq @ ''192.168.122.254'' @ sq @ ''/>'')
                 @ dq @ '' --live --config''"
  shows "limit_dhcp_range h old_range new_range t0 =
     (Inr (), if str_contains (out (respond h t0 dump)) (''range start='' @ sq @ old_range @ sq)
              then t0 @ [Ran dump, Ran delr, Ran addr] else t0 @ [Ran dump])"
  unfolding assms
  by (simp add: limit_dhcp_range_def act_defs Let_def)

lemma ensure_run_as_root_cases:
  assumes "sed = ''sed -e '' @ sq @ ''s/#'' @ bs @ ''(user'' @ bs @ ''|group'' @ bs @ '') = ''
                 @ dq @ ''.*'' @ dq @ ''$/'' @ bs @ ''1 = '' @ dq @ ''root'' @ dq @ ''/'' @ sq
                 @ '' -i /etc/libvirt/qemu.conf''"
    and "restart_c = ''systemctl restart libvirtd''"
    and "conf = ''/etc/libvirt/qemu.conf''"
  shows "ensure_run_as_root h t0 =
     (if str_contains (file_contents h t0 conf) (nl @ ''user = '' @ dq @ ''root'' @ dq)
      then (Inr (), t0 @ [ReadFile conf])
      else (if returncode (respond h (t0 @ [ReadFile conf, Ran sed]) restart_c) \<noteq> 0 then Inl SystemExit else Inr (),
            t0 @ [ReadFile conf, Ran sed, Ran restart_c]))"
  unfolding assms
  by (simp add: ensure_run_as_root_def restart_def act_defs Let_def)

lemma configure_cases:
  assumes "enable = ''systemctl enable libvirtd --now''"
    and "dump = ''virsh net-dumpxml default''"
    and "restart_c = ''systemctl restart libvirtd''"
    and "bridge_xml = ''/tmp/vir_bridge.xml''"
    and "contents = (if hostname h = ''localhost''
               then network_xml ''192.168.122.1'' (Some (''192.168.122.129'', ''192.168.122.254''))
               else network_xml ''192.168.123.250'' None)"
  shows "configure h api t0 =
     (if returncode (respond h t0 enable) \<noteq> 0 then (Inl SystemExit, t0 @ [Ran enable])
      else
        (case ensure_run_as_root h (t0 @ [Ran enable]) of
           (Inl e, t1) \<Rightarrow> (Inl e, t1)
         | (Inr u, t1) \<Rightarrow>
            if \<not> str_contains (out (respond h t1 dump)) (''stp='' @ sq @ ''off'' @ sq)
               \<or> str_contains (out (respond h t1 dump)) (''range start='' @ sq @ ''192.168.122.2'' @ sq)
            then
              (case ensure_started h api bridge_xml (t1 @ [Ran dump, Wrote bridge_xml contents, Slept 5]) of
                 (Inl e, t2) \<Rightarrow> (Inl e, t2)
               | (Inr u, t2) \<Rightarrow>
                  (case limit_dhcp_range h ''192.168.122.2'' ''192.168.122.129'' t2 of
                     (Inl e, t3) \<Rightarrow> (Inl e, t3)
                   | (Inr u, t3) \<Rightarrow>
                      if returncode (respond h t3 restart_c) \<noteq> 0
                      then (Inl SystemExit, t3 @ [Ran restart_c])
                      else (Inr (), t3 @ [Ran restart_c, Slept 5])))
            else (Inr (), t1 @ [Ran dump])))"
proof -
  have p: "path_join ''/tmp'' ''vir_bridge.xml'' = bridge_xml"
    by (simp add: path_join_def assms(4))
  note d = configure_def[of h api, unfolded Let_def restart_def p, folded assms(1-3) assms(5)]
  show ?thesis
    unfolding d
    by (auto simp add: andthen_def run_def run_or_die_def finish_def
       write_file_def sleep_def split: prod.splits sum.splits)
qed

lemma first_split_unique:
  "x \<notin> set xs \<Longrightarrow> x \<notin> set ys \<Longrightarrow> xs @ x # xs' = ys @ x # ys' \<Longrightarrow> xs = ys \<and> xs' = ys'"
proof (induction xs arbitrary: ys)
  case Nil
  then show ?case by (cases ys) auto
next
  case (Cons a xs)
  then show ?case by (cases ys) auto
qed

lemma ensure_started_runs:
  assumes "destroy = ''virsh net-destroy default''"
    and "undefine = ''virsh net-undefine default''"
    and "linkdel = ''ip link delete virbr0''"
    and "define_c = ''virsh net-define '' @ bridge_xml"
    and "down = ''ip link set '' @ api @ '' down''"
    and "start = ''virsh net-start default''"
    and "up = ''ip link set '' @ api @ '' up''"
  shows "snd (ensure_started h api bridge_xml t) = t @ new_events (ensure_started h api bridge_xml) t"
    and "(fst (ensure_started h api bridge_xml t) = Inl SystemExit
           \<and> cmds (new_events (ensure_started h api bridge_xml) t) = [destroy, undefine])
         \<or> (fst (ensure_started h api bridge_xml t) = Inl SystemExit
           \<and> cmds (new_events (ensure_started h api bridge_xml) t) = [destroy, undefine, linkdel, define_c])
         \<or> (fst (ensure_started h api bridge_xml t) = Inl SystemExit
           \<and> cmds (new_events (ensure_started h api bridge_xml) t)
               = [destroy, undefine, linkdel, define_c, down, start])
         \<or> (fst (ensure_started h api bridge_xml t) = Inr ()
           \<and> cmds (new_events (ensure_started h api bridge_xml) t)
               = [destroy, undefine, linkdel, define_c, down, start, up])"
    and "(\<forall>hist. returncode (respond h hist undefine) = 0 \<and> returncode (respond h hist define_c) = 0
              \<and> returncode (respond h hist start) = 0)
         \<longrightarrow> fst (ensure_started h api bridge_xml t) = Inr ()"
  by (simp_all add: ensure_started_cases[OF assms] new_events_def)

lemma limit_dhcp_range_runs:
  "limit_dhcp_range h a b t = (Inr (), t @ new_events (limit_dhcp_range h a b) t)"
  by (simp add: limit_dhcp_range_cases[OF refl refl refl] new_events_def)

lemma configure_after_inspection:
  assumes "enable = ''systemctl enable libvirtd --now''"
    and "dump = ''virsh net-dumpxml default''"
    and "restart_c = ''systemctl restart libvirtd''"
    and "bridge_xml = ''/tmp/vir_bridge.xml''"
    and "contents = (if hostname h = ''localhost''
               then network_xml ''192.168.122.1'' (Some (''192.168.122.129'', ''192.168.122.254''))
               else network_xml ''192.168.123.250'' None)"
    and N: "new_events (configure h api) t0 = pre @ Ran dump # post"
    and P: "Ran dump \<notin> set pre"
    and C: "\<not> str_contains (out (respond h (t0 @ pre) dump)) (''stp='' @ sq @ ''off'' @ sq)
               \<or> str_contains (out (respond h (t0 @ pre) dump)) (''range start='' @ sq @ ''192.168.122.2'' @ sq)"
  shows "\<exists>r. post = Wrote bridge_xml contents # Slept 5 #
                 new_events (ensure_started h api bridge_xml)
                    (t0 @ pre @ [Ran dump, Wrote bridge_xml contents, Slept 5]) @ r
            \<and> (fst (ensure_started h api bridge_xml
                    (t0 @ pre @ [Ran dump, Wrote bridge_xml contents, Slept 5])) \<noteq> Inr () \<longrightarrow> r = [])
            \<and> (fst (configure h api t0) = Inr () \<longrightarrow>
                 fst (ensure_started h api bridge_xml
                    (t0 @ pre @ [Ran dump, Wrote bridge_xml contents, Slept 5])) = Inr ())"
proof -
  define sed where "sed = ''sed -e '' @ sq @ ''s/#'' @ bs @ ''(user'' @ bs @ ''|group'' @ bs @ '') = ''
                 @ dq @ ''.*'' @ dq @ ''$/'' @ bs @ ''1 = '' @ dq @ ''root'' @ dq @ ''/'' @ sq
                 @ '' -i /etc/libvirt/qemu.conf''"
  define conf where "conf = ''/etc/libvirt/qemu.conf''"
  note eq_conf = configure_cases[OF assms(1-5), of api t0]
  note eq_root = ensure_run_as_root_cases[OF sed_def assms(3) conf_def, of h "t0 @ [Ran enable]"]
  have ne: "enable \<noteq> dump" "sed \<noteq> dump" "restart_c \<noteq> dump"
    by (simp_all add: assms(1-3) sed_def)
  have inN: "Ran dump \<in> set (new_events (configure h api) t0)"
    by (simp add: N)
  obtain r1 ev where R: "ensure_run_as_root h (t0 @ [Ran enable]) = (r1, t0 @ Ran enable # ev)"
    and nd: "Ran dump \<notin> set ev"
    using eq_root ne by (cases "str_contains (file_contents h (t0 @ [Ran enable]) conf)
          (nl @ ''user = '' @ dq @ ''root'' @ dq)") auto
  note nec = new_events_def[of "configure h api" t0]
  define T2 where "T2 = t0 @ Ran enable # ev @ [Ran dump, Wrote bridge_xml contents, Slept 5]"
  define es where "es = new_events (ensure_started h api bridge_xml) T2"
  obtain r2 where E: "ensure_started h api bridge_xml T2 = (r2, T2 @ es)"
    using ensure_started_runs(1)[OF refl refl refl refl refl refl refl, of h api bridge_xml T2]
    unfolding es_def by (metis prod.collapse)
  have E2: "fst (ensure_started h api bridge_xml T2) = r2"
    by (simp add: E)
  define lim where "lim = new_events (limit_dhcp_range h ''192.168.122.2'' ''192.168.122.129'') (T2 @ es)"
  have L: "limit_dhcp_range h ''192.168.122.2'' ''192.168.122.129'' (T2 @ es) = (Inr (), T2 @ es @ lim)"
    unfolding lim_def using limit_dhcp_range_runs[of h _ _ "T2 @ es"] by simp
  show ?thesis
  proof (cases "returncode (respond h t0 enable) \<noteq> 0")
    case True
    then have "new_events (configure h api) t0 = [Ran enable]"
      by (simp add: eq_conf nec)
    with inN ne show ?thesis by simp
  next
    case en: False
    show ?thesis
    proof (cases r1)
      case (Inl e)
      then have "new_events (configure h api) t0 = Ran enable # ev"
        using en by (simp add: eq_conf nec R)
      with inN ne nd show ?thesis by simp
    next
      case (Inr u)
      have "\<exists>rest. new_events (configure h api) t0 = (Ran enable # ev) @ Ran dump # rest"
        using en Inr by (cases r2) (simp_all add: eq_conf nec R E[unfolded T2_def, simplified] L[unfolded T2_def, simplified])
      then obtain rest where N': "new_events (configure h api) t0 = (Ran enable # ev) @ Ran dump # rest"
        by blast
      have nd': "Ran dump \<notin> set (Ran enable # ev)" using ne nd by simp
      have "(Ran enable # ev) @ Ran dump # rest = pre @ Ran dump # post"
        using trans[OF N'[symmetric] N] .
      from first_split_unique[OF nd' P this]
      have pre: "pre = Ran enable # ev" and post: "post = rest"
        by simp_all
      have C': "\<not> str_contains (out (respond h (t0 @ Ran enable # ev) dump)) (''stp='' @ sq @ ''off'' @ sq)
               \<or> str_contains (out (respond h (t0 @ Ran enable # ev) dump)) (''range start='' @ sq @ ''192.168.122.2'' @ sq)"
        using C pre by simp
      have T2': "t0 @ pre @ [Ran dump, Wrote bridge_xml contents, Slept 5] = T2"
        by (simp add: T2_def pre)
      show ?thesis
        unfolding T2' E2 es_def[symmetric]
      proof (cases r2)
        case (Inl e2)
        have "rest = Wrote bridge_xml contents # Slept 5 # es"
          using N' en Inr C' Inl
          by (simp add: eq_conf nec R E[unfolded T2_def, simplified])
        moreover have "fst (configure h api t0) \<noteq> Inr ()"
          using en Inr C' Inl
          by (simp add: eq_conf R E[unfolded T2_def, simplified])
        ultimately show "\<exists>r. post = Wrote bridge_xml contents # Slept 5 # es @ r \<and>
        (r2 \<noteq> Inr () \<longrightarrow> r = []) \<and> (fst (configure h api t0) = Inr () \<longrightarrow> r2 = Inr ())"
          using post by simp
      next
        case r2: (Inr u2)
        have "\<exists>r. rest = Wrote bridge_xml contents # Slept 5 # es @ r"
          using N' en Inr C' r2
          by (auto simp add: eq_conf nec R E[unfolded T2_def, simplified] L[unfolded T2_def, simplified]
                split: if_splits)
        then show "\<exists>r. post = Wrote bridge_xml contents # Slept 5 # es @ r \<and>
        (r2 \<noteq> Inr () \<longrightarrow> r = []) \<and> (fst (configure h api t0) = Inr () \<longrightarrow> r2 = Inr ())"
          using post r2 by auto
      qed
    qed
  qed
qed

lemma cmds_append: "cmds (xs @ ys) = cmds xs @ cmds ys"
  by (induction xs rule: cmds.induct) simp_all


lemma answers_append:
  "answers h hist (xs @ ys) = answers h hist xs @ answers h (hist @ xs) ys"
  by (induction h hist xs rule: answers.induct) simp_all

lemma ensure_started_fatal:
  "fst (ensure_started h api bx t) = Inl SystemExit \<longleftrightarrow>
     (\<exists>(c, r) \<in> set (answers h t (new_events (ensure_started h api bx) t)). fatal_failure c r)"
  "fst (ensure_started h api bx t) = Inl SystemExit \<or> fst (ensure_started h api bx t) = Inr ()"
  "snd (ensure_started h api bx t) = t @ new_events (ensure_started h api bx) t"
proof -
  define destroy where "destroy = ''virsh net-destroy default''"
  define undefine where "undefine = ''virsh net-undefine default''"
  define linkdel where "linkdel = ''ip link delete virbr0''"
  define define_c where "define_c = ''virsh net-define '' @ bx"
  define down where "down = ''ip link set '' @ api @ '' down''"
  define start where "start = ''virsh net-start default''"
  define up where "up = ''ip link set '' @ api @ '' up''"
  have ff: "\<And>r. \<not> fatal_failure destroy r"
     "\<And>r. fatal_failure undefine r = (returncode r \<noteq> 0 \<and> \<not> str_contains (err r) ''Network not found'')"
     "\<And>r. \<not> fatal_failure linkdel r"
     "\<And>r. fatal_failure define_c r = (returncode r \<noteq> 0)"
     "\<And>r. \<not> fatal_failure down r"
     "\<And>r. fatal_failure start r = (returncode r \<noteq> 0)"
     "\<And>r. \<not> fatal_failure up r"
    by (simp_all add: fatal_failure_def destroy_def undefine_def linkdel_def define_c_def down_def
          start_def up_def)
  note eq = ensure_started_cases[OF destroy_def undefine_def linkdel_def define_c_def down_def
      start_def up_def, of h t]
  note ne = new_events_def[of "ensure_started h api bx" t]
  show "fst (ensure_started h api bx t) = Inl SystemExit \<longleftrightarrow>
     (\<exists>(c, r) \<in> set (answers h t (new_events (ensure_started h api bx) t)). fatal_failure c r)"
    by (simp add: eq ne ff)
  show "fst (ensure_started h api bx t) = Inl SystemExit \<or> fst (ensure_started h api bx t) = Inr ()"
    by (simp add: eq)
  show "snd (ensure_started h api bx t) = t @ new_events (ensure_started h api bx) t"
    by (simp add: eq ne)
qed

lemma limit_dhcp_range_fatal:
  "fst (limit_dhcp_range h a b t) = Inr ()"
  "\<not> (\<exists>(c, r) \<in> set (answers h t (new_events (limit_dhcp_range h a b) t)). fatal_failure c r)"
proof -
  define dump where "dump = ''virsh net-dumpxml default''"
  define delr where "delr = ''virsh net-update default delete ip-dhcp-range '' @ dq @
                 (''<range start='' @ sq @ a @ sq @ '' end='' @ sq @ ''192.168.122.254'' @ sq @ ''/>'')
                 @ dq @ '' --live --config''"
  define addr where "addr = ''virsh net-update default add ip-dhcp-range '' @ dq @
                 (''<range start='' @ sq @ b @ sq @ '' end='' @ sq @ ''192.168.122.254'' @ sq @ ''/>'')
                 @ dq @ '' --live --config''"
  have ff: "\<And>r. \<not> fatal_failure dump r" "\<And>r. \<not> fatal_failure delr r" "\<And>r. \<not> fatal_failure addr r"
    by (simp_all add: fatal_failure_def dump_def delr_def addr_def)
  note eq = limit_dhcp_range_cases[OF dump_def delr_def addr_def, of h t]
  note ne = new_events_def[of "limit_dhcp_range h a b" t]
  show "fst (limit_dhcp_range h a b t) = Inr ()"
    by (simp add: eq)
  show "\<not> (\<exists>(c, r) \<in> set (answers h t (new_events (limit_dhcp_range h a b) t)). fatal_failure c r)"
    by (simp add: eq ne ff)
qed

lemma ensure_run_as_root_fatal:
  "fst (ensure_run_as_root h t) = Inl SystemExit \<longleftrightarrow>
     (\<exists>(c, r) \<in> set (answers h t (new_events (ensure_run_as_root h) t)). fatal_failure c r)"
  "fst (ensure_run_as_root h t) = Inl SystemExit \<or> fst (ensure_run_as_root h t) = Inr ()"
  "snd (ensure_run_as_root h t) = t @ new_events (ensure_run_as_root h) t"
proof -
  define sed where "sed = ''sed -e '' @ sq @ ''s/#'' @ bs @ ''(user'' @ bs @ ''|group'' @ bs @ '') = ''
                 @ dq @ ''.*'' @ dq @ ''$/'' @ bs @ ''1 = '' @ dq @ ''root'' @ dq @ ''/'' @ sq
                 @ '' -i /etc/libvirt/qemu.conf''"
  define conf where "conf = ''/etc/libvirt/qemu.conf''"
  define restart_c where "restart_c = ''systemctl restart libvirtd''"
  have ff: "\<And>r. \<not> fatal_failure sed r" "\<And>r. fatal_failure restart_c r = (returncode r \<noteq> 0)"
    by (simp_all add: fatal_failure_def sed_def restart_c_def)
  note eq = ensure_run_as_root_cases[OF sed_def restart_c_def conf_def, of h t]
  note ne = new_events_def[of "ensure_run_as_root h" t]
  show "fst (ensure_run_as_root h t) = Inl SystemExit \<longleftrightarrow>
     (\<exists>(c, r) \<in> set (answers h t (new_events (ensure_run_as_root h) t)). fatal_failure c r)"
    by (simp add: eq ne ff)
  show "fst (ensure_run_as_root h t) = Inl SystemExit \<or> fst (ensure_run_as_root h t) = Inr ()"
    by (simp add: eq)
  show "snd (ensure_run_as_root h t) = t @ new_events (ensure_run_as_root h) t"
    by (simp add: eq ne)
qed

lemma configure_fatal:
  "(fst (configure h api t0) = Inl SystemExit \<longleftrightarrow>
     (\<exists>(c, r) \<in> set (answers h t0 (new_events (configure h api) t0)). fatal_failure c r))
   \<and> (fst (configure h api t0) = Inl SystemExit \<or> fst (configure h api t0) = Inr ())"
proof -
  define enable where "enable = ''systemctl enable libvirtd --now''"
  define dump where "dump = ''virsh net-dumpxml default''"
  define restart_c where "restart_c = ''systemctl restart libvirtd''"
  define bridge_xml where "bridge_xml = ''/tmp/vir_bridge.xml''"
  define contents where "contents = (if hostname h = ''localhost''
               then network_xml ''192.168.122.1'' (Some (''192.168.122.129'', ''192.168.122.254''))
               else network_xml ''192.168.123.250'' None)"
  have ff: "\<And>r. fatal_failure enable r = (returncode r \<noteq> 0)" "\<And>r. \<not> fatal_failure dump r"
     "\<And>r. fatal_failure restart_c r = (returncode r \<noteq> 0)"
    by (simp_all add: fatal_failure_def enable_def dump_def restart_c_def)
  note eq_conf = configure_cases[OF enable_def dump_def restart_c_def bridge_xml_def contents_def, of api t0]
  note nec = new_events_def[of "configure h api" t0]
  define T1 where "T1 = t0 @ [Ran enable]"
  define ev where "ev = new_events (ensure_run_as_root h) T1"
  obtain r1 where R: "ensure_run_as_root h T1 = (r1, T1 @ ev)"
    using ensure_run_as_root_fatal(3)[of h T1] unfolding ev_def by (metis prod.collapse)
  have R1: "r1 = Inl SystemExit \<longleftrightarrow> (\<exists>(c, r) \<in> set (answers h T1 ev). fatal_failure c r)"
     "r1 = Inl SystemExit \<or> r1 = Inr ()"
    using ensure_run_as_root_fatal(1,2)[of h T1] unfolding ev_def[symmetric] R by simp_all
  define T2 where "T2 = T1 @ ev @ [Ran dump, Wrote bridge_xml contents, Slept 5]"
  define es where "es = new_events (ensure_started h api bridge_xml) T2"
  obtain r2 where E: "ensure_started h api bridge_xml T2 = (r2, T2 @ es)"
    using ensure_started_fatal(3)[of h api bridge_xml T2] unfolding es_def by (metis prod.collapse)
  have E1: "r2 = Inl SystemExit \<longleftrightarrow> (\<exists>(c, r) \<in> set (answers h T2 es). fatal_failure c r)"
     "r2 = Inl SystemExit \<or> r2 = Inr ()"
    using ensure_started_fatal(1,2)[of h api bridge_xml T2] unfolding es_def[symmetric] E by simp_all
  define lim where "lim = new_events (limit_dhcp_range h ''192.168.122.2'' ''192.168.122.129'') (T2 @ es)"
  have L: "limit_dhcp_range h ''192.168.122.2'' ''192.168.122.129'' (T2 @ es) = (Inr (), T2 @ es @ lim)"
    unfolding lim_def using limit_dhcp_range_runs[of h _ _ "T2 @ es"] by simp
  have L1: "\<not> (\<exists>(c, r) \<in> set (answers h (T2 @ es) lim). fatal_failure c r)"
    using limit_dhcp_range_fatal(2)[where t = "T2 @ es" and h = h] unfolding lim_def .
  note R' = R[unfolded T1_def, simplified]
  note E' = E[unfolded T2_def T1_def, simplified]
  note L' = L[unfolded T2_def T1_def, simplified]
  note R1' = R1[unfolded T1_def, simplified]
  note E1' = E1[unfolded T2_def T1_def, simplified]
  note L1' = L1[unfolded T2_def T1_def, simplified]
  show ?thesis
  proof (cases "returncode (respond h t0 enable) \<noteq> 0")
    case True
    then show ?thesis by (simp add: eq_conf nec ff)
  next
    case en: False
    show ?thesis
    proof (cases r1)
      case (Inl e)
      with R1'(2) have e: "r1 = Inl SystemExit" by simp
      show ?thesis
        using en e R1'(1) by (auto simp add: eq_conf nec R' ff)
    next
      case r1: (Inr u)
      then have nb1: "\<not> (\<exists>(c, r) \<in> set (answers h (t0 @ [Ran enable]) ev). fatal_failure c r)"
        using R1'(1) by simp
      show ?thesis
      proof (cases "\<not> str_contains (out (respond h (t0 @ Ran enable # ev) dump)) (''stp='' @ sq @ ''off'' @ sq)
               \<or> str_contains (out (respond h (t0 @ Ran enable # ev) dump)) (''range start='' @ sq @ ''192.168.122.2'' @ sq)")
        case False
        then show ?thesis
          using en r1 nb1 by (auto simp add: eq_conf nec R' ff answers_append)
      next
        case rec: True
        show ?thesis
        proof (cases r2)
          case (Inl e2)
          with E1'(2) have e2: "r2 = Inl SystemExit" by simp
          show ?thesis
            using en r1 nb1 rec e2 E1'(1)
            by (auto simp add: eq_conf nec R' E' ff answers_append)
        next
          case r2: (Inr u2)
          then have nb2: "\<not> (\<exists>(c, r) \<in> set (answers h
               (t0 @ Ran enable # ev @ [Ran dump, Wrote bridge_xml contents, Slept 5]) es). fatal_failure c r)"
            using E1'(1) by simp
          show ?thesis
            using en r1 nb1 rec r2 nb2 L1'
            by (auto simp add: eq_conf nec R' E' L' ff answers_append)
        qed
      qed
    qed
  qed
qed

text \<open>
  Claim C4. Let \<^verbatim>\<open>configure\<close> reach its inspection of the network: the events it adds
  are \<open>pre\<close>, then the first \<^verbatim>\<open>virsh net-dumpxml default\<close>, then \<open>post\<close>. If the
  output of that command lacks \<^verbatim>\<open>stp='off'\<close> or contains the stale range
  \<^verbatim>\<open>range start='192.168.122.2'\<close>, then the commands run afterwards start with
  \<^verbatim>\<open>net-destroy\<close>, \<^verbatim>\<open>net-undefine\<close>, the removal of \<^verbatim>\<open>virbr0\<close>, \<^verbatim>\<open>net-define\<close>, the API
  interface down, \<^verbatim>\<open>net-start\<close>, the API interface up, in this order: either they
  stop inside this sequence (a fatal failure of \<^verbatim>\<open>net-undefine\<close>, \<^verbatim>\<open>net-define\<close> or
  \<^verbatim>\<open>net-start\<close>), or the whole sequence is run, which is the case whenever
  \<^verbatim>\<open>configure\<close> returns and whenever these three commands exit with zero. The seven
  commands are different from each other; \<^verbatim>\<open>net-undefine\<close> is never run before
  \<^verbatim>\<open>net-destroy\<close>, \<^verbatim>\<open>net-define\<close> never before \<^verbatim>\<open>net-undefine\<close>, \<^verbatim>\<open>net-start\<close> never
  before \<^verbatim>\<open>net-define\<close> nor before the interface is set down, and the interface is
  never set up before \<^verbatim>\<open>net-start\<close>.
\<close>

theorem configure_recreation_order:
  assumes N: "new_events (configure h api) t0 = pre @ Ran ''virsh net-dumpxml default'' # post"
    and P: "Ran ''virsh net-dumpxml default'' \<notin> set pre"
    and C: "\<not> str_contains (out (respond h (t0 @ pre) ''virsh net-dumpxml default'')) (''stp='' @ sq @ ''off'' @ sq)
            \<or> str_contains (out (respond h (t0 @ pre) ''virsh net-dumpxml default''))
                 (''range start='' @ sq @ ''192.168.122.2'' @ sq)"
  shows "(prefix (cmds post) (recreation_sequence api) \<or> prefix (recreation_sequence api) (cmds post))
     \<and> distinct (recreation_sequence api)
     \<and> (fst (configure h api t0) = Inr () \<longrightarrow> prefix (recreation_sequence api) (cmds post))
     \<and> ((\<forall>hist. returncode (respond h hist ''virsh net-undefine default'') = 0
                \<and> returncode (respond h hist ''virsh net-define /tmp/vir_bridge.xml'') = 0
                \<and> returncode (respond h hist ''virsh net-start default'') = 0)
          \<longrightarrow> prefix (recreation_sequence api) (cmds post))
     \<and> issued_before ''virsh net-destroy default'' ''virsh net-undefine default'' (cmds post)
     \<and> issued_before ''virsh net-undefine default'' ''virsh net-define /tmp/vir_bridge.xml'' (cmds post)
     \<and> issued_before ''virsh net-define /tmp/vir_bridge.xml'' ''virsh net-start default'' (cmds post)
     \<and> issued_before (''ip link set '' @ api @ '' down'') ''virsh net-start default'' (cmds post)
     \<and> issued_before ''virsh net-start default'' (''ip link set '' @ api @ '' up'') (cmds post)"
proof -
  define bridge_xml where "bridge_xml = ''/tmp/vir_bridge.xml''"
  define contents where "contents = (if hostname h = ''localhost''
               then network_xml ''192.168.122.1'' (Some (''192.168.122.129'', ''192.168.122.254''))
               else network_xml ''192.168.123.250'' None)"
  define destroy where "destroy = ''virsh net-destroy default''"
  define undefine where "undefine = ''virsh net-undefine default''"
  define linkdel where "linkdel = ''ip link delete virbr0''"
  define define_c where "define_c = ''virsh net-define '' @ bridge_xml"
  define down where "down = ''ip link set '' @ api @ '' down''"
  define start where "start = ''virsh net-start default''"
  define up where "up = ''ip link set '' @ api @ '' up''"
  define T2 where "T2 = t0 @ pre @ [Ran ''virsh net-dumpxml default'', Wrote bridge_xml contents, Slept 5]"
  define es where "es = cmds (new_events (ensure_started h api bridge_xml) T2)"
  define r2 where "r2 = fst (ensure_started h api bridge_xml T2)"
  have D: "distinct [destroy, undefine, linkdel, define_c, down, start, up]"
    by (simp add: destroy_def undefine_def linkdel_def define_c_def down_def start_def up_def)
  have D': "distinct (rev [destroy, undefine, linkdel, define_c, down, start, up])"
    using D by (simp only: distinct_rev)
  note ne = D[simplified] D'[simplified]
  have dc: "''virsh net-define /tmp/vir_bridge.xml'' = define_c"
    by (simp add: define_c_def bridge_xml_def)
  have seq: "recreation_sequence api = [destroy, undefine, linkdel, define_c, down, start, up]"
    by (simp add: recreation_sequence_def destroy_def undefine_def linkdel_def define_c_def
          bridge_xml_def down_def start_def up_def)
  obtain r where post: "post = Wrote bridge_xml contents # Slept 5 #
                 new_events (ensure_started h api bridge_xml) T2 @ r"
    and r: "r2 \<noteq> Inr () \<longrightarrow> r = []"
    and fin: "fst (configure h api t0) = Inr () \<longrightarrow> r2 = Inr ()"
    using configure_after_inspection[OF refl refl refl bridge_xml_def contents_def N P C]
    unfolding T2_def r2_def by blast
  have cp: "cmds post = es @ cmds r"
    by (simp add: post es_def cmds_append)
  note runs = ensure_started_runs(2,3)[OF destroy_def undefine_def linkdel_def define_c_def down_def
      start_def up_def, of h T2, folded es_def r2_def]
  from runs(1) r have shape:
    "(r2 \<noteq> Inr () \<and> cmds post = [destroy, undefine])
     \<or> (r2 \<noteq> Inr () \<and> cmds post = [destroy, undefine, linkdel, define_c])
     \<or> (r2 \<noteq> Inr () \<and> cmds post = [destroy, undefine, linkdel, define_c, down, start])
     \<or> (r2 = Inr () \<and> cmds post = [destroy, undefine, linkdel, define_c, down, start, up] @ cmds r)"
    unfolding cp by auto
  show ?thesis
    unfolding dc seq
    unfolding destroy_def[symmetric] undefine_def[symmetric] start_def[symmetric]
      down_def[symmetric] up_def[symmetric]
    using shape fin runs(2) D
    by (elim disjE) (simp_all add: issued_before_def ne)
qed

theorem configure_recreation_order_witness:
  "new_events (configure (quiet_host [] []) ''eno1'') [] =
     [Ran ''systemctl enable libvirtd --now'', ReadFile ''/etc/libvirt/qemu.conf'',
      Ran (''sed -e '' @ sq @ ''s/#'' @ bs @ ''(user'' @ bs @ ''|group'' @ bs @ '') = ''
            @ dq @ ''.*'' @ dq @ ''$/'' @ bs @ ''1 = '' @ dq @ ''root'' @ dq @ ''/'' @ sq
            @ '' -i /etc/libvirt/qemu.conf''),
      Ran ''systemctl restart libvirtd'']
     @ Ran ''virsh net-dumpxml default''
     # [Wrote ''/tmp/vir_bridge.xml''
          (network_xml ''192.168.122.1'' (Some (''192.168.122.129'', ''192.168.122.254''))),
        Slept 5,
        Ran ''virsh net-destroy default'', Ran ''virsh net-undefine default'',
        Ran ''ip link delete virbr0'', Ran ''virsh net-define /tmp/vir_bridge.xml'',
        Ran ''ip link set eno1 down'', Ran ''virsh net-start default'',
        Ran ''ip link set eno1 up'', Ran ''virsh net-dumpxml default'',
        Ran ''systemctl restart libvirtd'', Slept 5]
   \<and> prefix (recreation_sequence ''eno1'')
        [''virsh net-destroy default'', ''virsh net-undefine default'',
         ''ip link delete virbr0'', ''virsh net-define /tmp/vir_bridge.xml'',
         ''ip link set eno1 down'', ''virsh net-start default'',
         ''ip link set eno1 up'', ''virsh net-dumpxml default'',
         ''systemctl restart libvirtd'']"
proof -
  let ?pre = "[Ran ''systemctl enable libvirtd --now'', ReadFile ''/etc/libvirt/qemu.conf'',
      Ran (''sed -e '' @ sq @ ''s/#'' @ bs @ ''(user'' @ bs @ ''|group'' @ bs @ '') = ''
            @ dq @ ''.*'' @ dq @ ''$/'' @ bs @ ''1 = '' @ dq @ ''root'' @ dq @ ''/'' @ sq
            @ '' -i /etc/libvirt/qemu.conf''),
      Ran ''systemctl restart libvirtd'']"
  let ?post = "[Wrote ''/tmp/vir_bridge.xml''
          (network_xml ''192.168.122.1'' (Some (''192.168.122.129'', ''192.168.122.254''))),
        Slept 5,
        Ran ''virsh net-destroy default'', Ran ''virsh net-undefine default'',
        Ran ''ip link delete virbr0'', Ran ''virsh net-define /tmp/vir_bridge.xml'',
        Ran ''ip link set eno1 down'', Ran ''virsh net-start default'',
        Ran ''ip link set eno1 up'', Ran ''virsh net-dumpxml default'',
        Ran ''systemctl restart libvirtd'', Slept 5]"
  have N: "new_events (configure (quiet_host [] []) ''eno1'') []
             = ?pre @ Ran ''virsh net-dumpxml default'' # ?post"
    by (simp add: configure_def ensure_run_as_root_def restart_def ensure_started_def
          limit_dhcp_range_def act_defs path_join_def quiet_host_def new_events_def Let_def)
  have P: "Ran ''virsh net-dumpxml default'' \<notin> set ?pre"
    by simp
  have C: "\<not> str_contains (out (respond (quiet_host [] []) ([] @ ?pre) ''virsh net-dumpxml default''))
                 (''stp='' @ sq @ ''off'' @ sq)
            \<or> str_contains (out (respond (quiet_host [] []) ([] @ ?pre) ''virsh net-dumpxml default''))
                 (''range start='' @ sq @ ''192.168.122.2'' @ sq)"
    by (simp add: quiet_host_def)
  from configure_recreation_order [OF N P C] N show ?thesis
    by (simp add: recreation_sequence_def)
qed

text \<open>
  Claim C7, as stated: every command whose non-zero exit is not a classified
  ``already absent'' case aborts the reconciliation, the deletion and the addition
  of the DHCP range among them. On the host below both exit with 1, and
  \<^verbatim>\<open>limit_dhcp_range\<close> goes on after the failed deletion and returns normally.
\<close>

theorem limit_dhcp_range_abort_counterexample:
  "limit_dhcp_range failing_host ''192.168.122.2'' ''192.168.122.129'' [] =
     (Inr (),
      [Ran ''virsh net-dumpxml default'',
       Ran (''virsh net-update default delete ip-dhcp-range '' @ dq
            @ ''<range start='' @ sq @ ''192.168.122.2'' @ sq @ '' end='' @ sq
            @ ''192.168.122.254'' @ sq @ ''/>'' @ dq @ '' --live --config''),
       Ran (''virsh net-update default add ip-dhcp-range '' @ dq
            @ ''<range start='' @ sq @ ''192.168.122.129'' @ sq @ '' end='' @ sq
            @ ''192.168.122.254'' @ sq @ ''/>'' @ dq @ '' --live --config'')])
   \<and> returncode (respond failing_host [Ran ''virsh net-dumpxml default'']
         (''virsh net-update default delete ip-dhcp-range '' @ dq
            @ ''<range start='' @ sq @ ''192.168.122.2'' @ sq @ '' end='' @ sq
            @ ''192.168.122.254'' @ sq @ ''/>'' @ dq @ '' --live --config'')) = 1"
  by (simp add: limit_dhcp_range_def act_defs failing_host_def Let_def)

text \<open>
  The commands of the reconciler whose failure is fatal, and what a fatal failure
  does. The lemmas below follow the structure of the code: an action built from
  parts that stop at a fatal failure stops at a fatal failure.
\<close>

lemma answers_butlast_subset:
  "set (answers h t (butlast es)) \<subseteq> set (answers h t es)"
proof (cases "es = []")
  case False
  then have "es = butlast es @ [last es]" by simp
  then have "answers h t es = answers h t (butlast es) @ answers h (t @ butlast es) [last es]"
    by (metis answers_append)
  then show ?thesis by simp
qed simp

lemma stops_at_failureI:
  assumes "\<And>t0. a t0 = (res t0, t0 @ es t0)"
    and "\<And>t0. list_all (\<lambda>(c, r). \<not> fatal c r) (answers h t0 (butlast (es t0)))"
    and "\<And>t0. (\<exists>(c, r) \<in> set (answers h t0 (es t0)). fatal c r) \<Longrightarrow> \<exists>e. res t0 = Inl e"
  shows "stops_at_failure fatal h a"
  unfolding stops_at_failure_def new_events_def
  using assms(2,3) by (simp add: assms(1))

lemma stops_finish: "stops_at_failure fatal h (finish x)"
  by (rule stops_at_failureI[where es = "\<lambda>_. []" and res = "\<lambda>_. Inr x"]) (simp_all add: finish_def)

lemma stops_error_and_exit: "stops_at_failure fatal h error_and_exit"
  by (rule stops_at_failureI[where es = "\<lambda>_. []" and res = "\<lambda>_. Inl SystemExit"])
     (simp_all add: error_and_exit_def)

lemma stops_sys_exit: "stops_at_failure fatal h sys_exit"
  by (rule stops_at_failureI[where es = "\<lambda>_. []" and res = "\<lambda>_. Inl SystemExit"])
     (simp_all add: sys_exit_def)

lemma stops_sleep: "stops_at_failure fatal h (sleep n)"
  by (rule stops_at_failureI[where es = "\<lambda>_. [Slept n]" and res = "\<lambda>_. Inr ()"])
     (simp_all add: sleep_def)

lemma stops_write_file: "stops_at_failure fatal h (write_file h p c)"
  by (rule stops_at_failureI[where es = "\<lambda>_. [Wrote p c]" and res = "\<lambda>_. Inr ()"])
     (simp_all add: write_file_def)

lemma stops_read_file: "stops_at_failure fatal h (read_file h p)"
  by (rule stops_at_failureI[where es = "\<lambda>_. [ReadFile p]" and res = "\<lambda>t. Inr (file_contents h t p)"])
     (simp_all add: read_file_def)

lemma stops_run: "(\<And>r. \<not> fatal c r) \<Longrightarrow> stops_at_failure fatal h (run h c)"
  by (rule stops_at_failureI[where es = "\<lambda>_. [Ran c]" and res = "\<lambda>t. Inr (respond h t c)"])
     (simp_all add: run_def)

lemma stops_run_or_die:
  "(\<And>r. fatal c r \<Longrightarrow> returncode r \<noteq> 0) \<Longrightarrow> stops_at_failure fatal h (run_or_die h c)"
  by (rule stops_at_failureI[where es = "\<lambda>_. [Ran c]"
        and res = "\<lambda>t. if returncode (respond h t c) \<noteq> 0 then Inl SystemExit else Inr (respond h t c)"])
     (auto simp: run_or_die_def Let_def)

lemma stops_if:
  "(b \<Longrightarrow> stops_at_failure fatal h a1) \<Longrightarrow> (\<not> b \<Longrightarrow> stops_at_failure fatal h a2)
     \<Longrightarrow> stops_at_failure fatal h (if b then a1 else a2)"
  by simp

lemma stops_andthen:
  assumes A: "stops_at_failure fatal h a" and F: "\<And>x. stops_at_failure fatal h (f x)"
  shows "stops_at_failure fatal h (andthen a f)"
  unfolding stops_at_failure_def
proof (intro allI)
  fix t0
  define ea where "ea = new_events a t0"
  from A have a1: "snd (a t0) = t0 @ ea"
    and a2: "list_all (\<lambda>(c, r). \<not> fatal c r) (answers h t0 (butlast ea))"
    and a3: "(\<exists>(c, r) \<in> set (answers h t0 ea). fatal c r) \<longrightarrow> (\<exists>e. fst (a t0) = Inl e)"
    unfolding stops_at_failure_def ea_def by blast+
  show "snd (andthen a f t0) = t0 @ new_events (andthen a f) t0
      \<and> list_all (\<lambda>(c, r). \<not> fatal c r) (answers h t0 (butlast (new_events (andthen a f) t0)))
      \<and> ((\<exists>(c, r) \<in> set (answers h t0 (new_events (andthen a f) t0)). fatal c r)
              \<longrightarrow> (\<exists>e. fst (andthen a f t0) = Inl e))"
  proof (cases "fst (a t0)")
    case (Inl e)
    then have eq: "andthen a f t0 = (Inl e, t0 @ ea)"
      using a1 by (cases "a t0") (simp add: andthen_def)
    have ne: "new_events (andthen a f) t0 = ea"
      by (simp add: new_events_def eq)
    show ?thesis
      using a2 by (simp add: ne eq)
  next
    case (Inr x)
    then have at: "a t0 = (Inr x, t0 @ ea)"
      using a1 by (cases "a t0") simp
    define ef where "ef = new_events (f x) (t0 @ ea)"
    from F[of x] have f1: "snd (f x (t0 @ ea)) = t0 @ ea @ ef"
      and f2: "list_all (\<lambda>(c, r). \<not> fatal c r) (answers h (t0 @ ea) (butlast ef))"
      and f3: "(\<exists>(c, r) \<in> set (answers h (t0 @ ea) ef). fatal c r)
                 \<longrightarrow> (\<exists>e. fst (f x (t0 @ ea)) = Inl e)"
      unfolding stops_at_failure_def ef_def by auto
    have eq: "andthen a f t0 = f x (t0 @ ea)"
      by (simp add: andthen_def at)
    have ne: "new_events (andthen a f) t0 = ea @ ef"
      by (simp add: new_events_def eq f1)
    have na: "list_all (\<lambda>(c, r). \<not> fatal c r) (answers h t0 ea)"
      using a3 Inr by (auto simp: list_all_iff)
    have nb: "list_all (\<lambda>(c, r). \<not> fatal c r) (answers h t0 (butlast ea))"
      by (rule a2)
    show ?thesis
      using na nb f2 f3 f1
      by (auto simp: ne eq butlast_append answers_append list_all_iff)
  qed
qed

lemma stops_run_check:
  assumes c: "\<And>r. fatal c r \<Longrightarrow> B r" and G: "\<And>x. stops_at_failure fatal h (g x)"
  shows "stops_at_failure fatal h
           (andthen (run h c) (\<lambda>ret. andthen (if B ret then error_and_exit else finish ()) g))"
  unfolding stops_at_failure_def
proof (intro allI)
  fix t0
  let ?a = "andthen (run h c) (\<lambda>ret. andthen (if B ret then error_and_exit else finish ()) g)"
  define r where "r = respond h t0 c"
  show "snd (?a t0) = t0 @ new_events ?a t0
      \<and> list_all (\<lambda>(c, r). \<not> fatal c r) (answers h t0 (butlast (new_events ?a t0)))
      \<and> ((\<exists>(c, r) \<in> set (answers h t0 (new_events ?a t0)). fatal c r)
              \<longrightarrow> (\<exists>e. fst (?a t0) = Inl e))"
  proof (cases "B r")
    case True
    then have eq: "?a t0 = (Inl SystemExit, t0 @ [Ran c])"
      by (simp add: andthen_def run_def error_and_exit_def r_def)
    show ?thesis
      by (simp add: eq new_events_def)
  next
    case False
    define ef where "ef = new_events (g ()) (t0 @ [Ran c])"
    from G[of "()"] have f1: "snd (g () (t0 @ [Ran c])) = t0 @ [Ran c] @ ef"
      and f2: "list_all (\<lambda>(c, r). \<not> fatal c r) (answers h (t0 @ [Ran c]) (butlast ef))"
      and f3: "(\<exists>(c, r) \<in> set (answers h (t0 @ [Ran c]) ef). fatal c r)
                 \<longrightarrow> (\<exists>e. fst (g () (t0 @ [Ran c])) = Inl e)"
      unfolding stops_at_failure_def ef_def by auto
    have eq: "?a t0 = g () (t0 @ [Ran c])"
      using False by (simp add: andthen_def run_def finish_def r_def)
    have ne: "new_events ?a t0 = Ran c # ef"
      unfolding eq new_events_def using f1 by simp
    have nf: "\<not> fatal c r" using False c by blast
    show ?thesis
      unfolding eq ne using nf f2 f3 f1
      by (auto simp: list_all_iff r_def)
  qed
qed

lemma stops_restart: "stops_at_failure fatal_failure h (restart h)"
  unfolding restart_def
  by (intro stops_andthen stops_finish stops_run_or_die) (simp add: fatal_failure_def)

lemma stops_ensure_started: "stops_at_failure fatal_failure h (ensure_started h api bx)"
  unfolding ensure_started_def
  apply (rule stops_andthen)
   apply (rule stops_run)
   apply (simp add: fatal_failure_def)
  apply (rule stops_run_check)
   apply (simp add: fatal_failure_def)
  apply (rule stops_andthen)
   apply (rule stops_run)
   apply (simp add: fatal_failure_def)
  apply (rule stops_andthen)
   apply (rule stops_run_or_die)
   apply (simp add: fatal_failure_def)
  apply (rule stops_andthen)
   apply (rule stops_run)
   apply (simp add: fatal_failure_def)
  apply (rule stops_andthen)
   apply (rule stops_run_or_die)
   apply (simp add: fatal_failure_def)
  apply (rule stops_andthen)
   apply (rule stops_run)
   apply (simp add: fatal_failure_def)
  apply (rule stops_finish)
  done

lemma stops_limit_dhcp_range: "stops_at_failure fatal_failure h (limit_dhcp_range h a b)"
  unfolding limit_dhcp_range_def Let_def
  apply (rule stops_andthen)
   apply (rule stops_run)
   apply (simp add: fatal_failure_def)
  apply (rule stops_if)
   apply (rule stops_andthen)
    apply (rule stops_run)
    apply (simp add: fatal_failure_def)
   apply (rule stops_andthen)
    apply (rule stops_run)
    apply (simp add: fatal_failure_def)
   apply (rule stops_finish)
  apply (rule stops_finish)
  done

lemma stops_ensure_run_as_root: "stops_at_failure fatal_failure h (ensure_run_as_root h)"
  unfolding ensure_run_as_root_def
  apply (rule stops_andthen)
   apply (rule stops_read_file)
  apply (rule stops_if)
   apply (rule stops_finish)
  apply (rule stops_andthen)
   apply (rule stops_run)
   apply (simp add: fatal_failure_def)
  apply (rule stops_restart)
  done

lemma stops_configure: "stops_at_failure fatal_failure h (configure h api)"
  unfolding configure_def Let_def
  apply (rule stops_andthen)
   apply (rule stops_run_or_die)
   apply (simp add: fatal_failure_def)
  apply (rule stops_andthen)
   apply (rule stops_ensure_run_as_root)
  apply (rule stops_andthen)
   apply (rule stops_run)
   apply (simp add: fatal_failure_def)
  apply (rule stops_if)
   apply (rule stops_andthen)
    apply (rule stops_write_file)
   apply (rule stops_andthen)
    apply (rule stops_sleep)
   apply (rule stops_andthen)
    apply (rule stops_ensure_started)
   apply (rule stops_andthen)
    apply (rule stops_limit_dhcp_range)
   apply (rule stops_andthen)
    apply (rule stops_restart)
   apply (rule stops_sleep)
  apply (rule stops_finish)
  done

lemma stops_setup_dhcp_entry:
  "stops_at_failure fatal_failure_dhcp_entry h (setup_dhcp_entry h cfg)"
  unfolding setup_dhcp_entry_def Let_def
  apply (cases "ip cfg")
   apply (simp add: stops_error_and_exit)
  apply (simp only: option.case)
  apply (rule stops_andthen)
   apply (rule stops_run_or_die)
   apply (simp add: fatal_failure_dhcp_entry_def)
  apply (rule stops_andthen)
   apply (rule stops_if)
    apply (rule stops_andthen)
     apply (rule stops_run_or_die)
     apply (simp add: fatal_failure_dhcp_entry_def)
    apply (rule stops_finish)
   apply (rule stops_finish)
  apply (rule stops_andthen)
   apply (rule stops_run)
   apply (simp add: fatal_failure_dhcp_entry_def)
  apply (rule stops_if)
   apply (rule stops_sys_exit)
  apply (rule stops_andthen)
   apply (rule stops_run_or_die)
   apply (simp add: fatal_failure_dhcp_entry_def)
  apply (rule stops_finish)
  done

lemma stops_at_failureD:
  "stops_at_failure fatal h a \<Longrightarrow>
     list_all (\<lambda>(c, r). \<not> fatal c r) (answers h t0 (butlast (new_events a t0)))"
  unfolding stops_at_failure_def by blast

lemma setup_dhcp_entry_fatal:
  "(fst (setup_dhcp_entry h cfg t0) = Inl SystemExit \<longleftrightarrow>
        ip cfg = None
        \<or> (\<exists>(c, r) \<in> set (answers h t0 (new_events (setup_dhcp_entry h cfg) t0)).
              fatal_failure_dhcp_entry c r
              \<or> c = ''virsh net-dhcp-leases default'' \<and> str_contains (out r) (name cfg @ '' '')))
   \<and> (fst (setup_dhcp_entry h cfg t0) = Inl SystemExit \<or> fst (setup_dhcp_entry h cfg t0) = Inr ())"
proof -
  define dump where "dump = ''virsh net-dumpxml default''"
  define del where "del = ''virsh net-update default delete ip-dhcp-host '' @ dq
                @ ''<host name='' @ sq @ name cfg @ sq @ ''/>'' @ dq @ '' --live --config''"
  define leases where "leases = ''virsh net-dhcp-leases default''"
  have f1: "dump \<noteq> leases" "del \<noteq> leases"
    by (simp_all add: dump_def del_def leases_def)
  have ff: "\<And>r. fatal_failure_dhcp_entry dump r = (returncode r \<noteq> 0)"
    "\<And>r. fatal_failure_dhcp_entry del r = (returncode r \<noteq> 0)"
    "\<And>r. \<not> fatal_failure_dhcp_entry leases r"
    by (simp_all add: fatal_failure_dhcp_entry_def dump_def del_def leases_def)
  show ?thesis
  proof (cases "ip cfg")
    case None
    then show ?thesis
      by (simp add: setup_dhcp_entry_None new_events_def)
  next
    case (Some j)
    define add where "add = ''virsh net-update default add ip-dhcp-host '' @ dq
                @ ''<host mac='' @ sq @ fmt_opt (mac cfg) @ sq @ '' name='' @ sq @ name cfg @ sq
                @ '' ip='' @ sq @ j @ sq @ ''/>'' @ dq @ '' --live --config''"
    have f2: "add \<noteq> leases" by (simp add: add_def leases_def)
    have ff2: "\<And>r. fatal_failure_dhcp_entry add r = (returncode r \<noteq> 0)"
      by (simp add: fatal_failure_dhcp_entry_def add_def)
    note eq = setup_dhcp_entry_Some[OF Some dump_def del_def leases_def add_def, of h t0]
    show ?thesis
      unfolding leases_def[symmetric]
      by (simp add: eq new_events_def f1 f2 ff ff2 Some)
  qed
qed

text \<open>
  Claim C7, amended. In the reconciler a non-zero exit is fatal for the commands
  run through \<^verbatim>\<open>run_or_die\<close>, and for \<^verbatim>\<open>net-undefine\<close> unless its error output says
  \<^verbatim>\<open>Network not found\<close>. In \<^verbatim>\<open>configure\<close> and \<^verbatim>\<open>_ensure_started\<close> these are the commands
  of \<open>fatal_failure\<close> (enabling and restarting libvirtd, \<^verbatim>\<open>net-define\<close>, \<^verbatim>\<open>net-start\<close>,
  \<^verbatim>\<open>net-undefine\<close>); in \<^verbatim>\<open>setup_dhcp_entry\<close> those of \<open>fatal_failure_dhcp_entry\<close>
  (\<^verbatim>\<open>net-dumpxml\<close>, the deletion and the addition of the static entry of the host).
  A fatal failure aborts: the run ends with \<^verbatim>\<open>SystemExit\<close>, and the failed command
  is the last event of the run, so that no command, write or sleep follows it.
  \<^verbatim>\<open>_ensure_started\<close> and \<^verbatim>\<open>configure\<close> end fatally exactly when a command they ran
  failed fatally, and return otherwise; \<^verbatim>\<open>setup_dhcp_entry\<close> ends fatally exactly
  when a command it ran failed fatally, or the node has no IP address, or the
  leases output contains the name followed by a space, and returns otherwise.
  The exit code of every other command is ignored: \<^verbatim>\<open>net-destroy\<close>, the removal of
  the stale bridge, the two \<^verbatim>\<open>ip link set\<close>, the \<^verbatim>\<open>sed\<close> patch, the \<^verbatim>\<open>net-dumpxml\<close>
  inspections of \<^verbatim>\<open>configure\<close> and \<^verbatim>\<open>limit_dhcp_range\<close>, \<^verbatim>\<open>net-dhcp-leases\<close>, and the
  deletion and addition of the DHCP range, so that \<^verbatim>\<open>limit_dhcp_range\<close> always
  returns.
\<close>

theorem reconciler_failure_semantics:
  "(fst (ensure_started h api bx t0) = Inl SystemExit \<longleftrightarrow>
        (\<exists>(c, r) \<in> set (answers h t0 (new_events (ensure_started h api bx) t0)).
            fatal_failure c r))
   \<and> (fst (ensure_started h api bx t0) = Inl SystemExit \<or> fst (ensure_started h api bx t0) = Inr ())
   \<and> list_all (\<lambda>(c, r). \<not> fatal_failure c r)
        (answers h t0 (butlast (new_events (ensure_started h api bx) t0)))
   \<and> (fst (configure h api t0) = Inl SystemExit \<longleftrightarrow>
        (\<exists>(c, r) \<in> set (answers h t0 (new_events (configure h api) t0)). fatal_failure c r))
   \<and> (fst (configure h api t0) = Inl SystemExit \<or> fst (configure h api t0) = Inr ())
   \<and> list_all (\<lambda>(c, r). \<not> fatal_failure c r)
        (answers h t0 (butlast (new_events (configure h api) t0)))
   \<and> fst (limit_dhcp_range h old_range new_range t0) = Inr ()
   \<and> (fst (setup_dhcp_entry h cfg t0) = Inl SystemExit \<longleftrightarrow>
        ip cfg = None
        \<or> (\<exists>(c, r) \<in> set (answers h t0 (new_events (setup_dhcp_entry h cfg) t0)).
              fatal_failure_dhcp_entry c r
              \<or> c = ''virsh net-dhcp-leases default'' \<and> str_contains (out r) (name cfg @ '' '')))
   \<and> (fst (setup_dhcp_entry h cfg t0) = Inl SystemExit \<or> fst (setup_dhcp_entry h cfg t0) = Inr ())
   \<and> list_all (\<lambda>(c, r). \<not> fatal_failure_dhcp_entry c r)
        (answers h t0 (butlast (new_events (setup_dhcp_entry h cfg) t0)))"
  using limit_dhcp_range_fatal(1)[of h old_range new_range t0]
    ensure_started_fatal(1,2)[of h api bx t0] configure_fatal[of h api t0]
    setup_dhcp_entry_fatal[of h cfg t0]
    stops_at_failureD[OF stops_ensure_started[of h api bx], of t0]
    stops_at_failureD[OF stops_configure[of h api], of t0]
    stops_at_failureD[OF stops_setup_dhcp_entry[of h cfg], of t0]
  by blast

theorem reconciler_failure_semantics_witness:
  "fst (limit_dhcp_range failing_host ''192.168.122.2'' ''192.168.122.129'' []) = Inr ()
   \<and> fst (ensure_started failing_host ''eno1'' ''/tmp/vir_bridge.xml'' []) = Inl SystemExit
   \<and> answers failing_host [] (new_events (ensure_started failing_host ''eno1'' ''/tmp/vir_bridge.xml'') [])
       = [(''virsh net-destroy default'', \<lparr>returncode = 1, out = [], err = ''error''\<rparr>),
          (''virsh net-undefine default'', \<lparr>returncode = 1, out = [], err = ''error''\<rparr>)]
   \<and> fst (configure failing_host ''eno1'' []) = Inl SystemExit
   \<and> new_events (configure failing_host ''eno1'') [] = [Ran ''systemctl enable libvirtd --now'']
   \<and> fst (setup_dhcp_entry failing_host node_w2 []) = Inl SystemExit
   \<and> butlast (new_events (setup_dhcp_entry failing_host node_w2) []) =
       [Ran ''virsh net-dumpxml default'', Ran ''virsh net-dhcp-leases default'']
   \<and> fst (ensure_started (quiet_host [] []) ''eno1'' ''/tmp/vir_bridge.xml'' []) = Inr ()
   \<and> fst (configure (quiet_host [] []) ''eno1'' []) = Inr ()
   \<and> fst (setup_dhcp_entry (quiet_host [] []) node_w2 []) = Inr ()"
  using reconciler_failure_semantics
          [where h = failing_host and old_range = "''192.168.122.2''"
             and new_range = "''192.168.122.129''" and ?t0.0 = "[]" and api = "''eno1''"
             and bx = "''/tmp/vir_bridge.xml''" and cfg = node_w2]
        reconciler_failure_semantics
          [where h = "quiet_host [] []" and old_range = "''192.168.122.2''"
             and new_range = "''192.168.122.129''" and ?t0.0 = "[]" and api = "''eno1''"
             and bx = "''/tmp/vir_bridge.xml''" and cfg = node_w2]
  by (simp add: configure_def ensure_run_as_root_def restart_def ensure_started_def
        setup_dhcp_entry_def fmt_opt_def node_w2_def
        limit_dhcp_range_def act_defs path_join_def quiet_host_def failing_host_def new_events_def
        Let_def)


section \<open>Properties of the default cascade\<close>

text \<open>
  The lemmas follow the cascade step by step: what a statement
  \<^verbatim>\<open>if key not in v: v[key] = x\<close> does to a dict, what the bodies of the three loops
  do to a node and to a host entry, which host entries are appended, and last
  what a run of the whole cascade that does not raise has done.
\<close>

lemma bind_simps [simp]: "bind (Inr x) f = f x" "bind (Inl e) f = Inl e"
  by (simp_all add: bind_def)

lemma bind_eq_Inr [simp]: "(bind m f = Inr y) = (\<exists>x. m = Inr x \<and> f x = Inr y)"
  by (cases m) simp_all

lemma mapM_eq_Inr: "mapM f xs = Inr ys \<longleftrightarrow> list_all2 (\<lambda>x y. f x = Inr y) xs ys"
proof (induction xs arbitrary: ys)
  case Nil
  then show ?case by auto
next
  case (Cons a xs)
  then show ?case by (cases ys) auto
qed


lemma map_of_dict_update [simp]:
  "map_of (dict_update k x d) k' = (if k' = k then Some x else map_of d k')"
  by (induction d) auto


lemma is_dict_iff: "is_dict v \<longleftrightarrow> (\<exists>d. v = YDict d)"
  by (cases v) (simp_all add: is_dict_def)

lemma field_YDict [simp]: "field k (YDict d) = map_of d k"
  by (simp add: field_def)

lemma field_nondict: "\<not> is_dict v \<Longrightarrow> field k v = None"
  by (cases v) (simp_all add: field_def is_dict_def)

lemma py_in_dict: "is_dict v \<Longrightarrow> py_in k v = Inr (field k v \<noteq> None)"
  by (cases v) (simp_all add: is_dict_def py_in_def map_of_eq_None_iff)

lemma py_getitem_field:
  "py_getitem v k = Inr x \<longleftrightarrow> field k v = Some x"
  by (cases v) (auto simp: py_getitem_def field_def split: option.splits)

lemma py_getitem_dict: "py_getitem v k = Inr x \<Longrightarrow> is_dict v"
  by (cases v) (auto simp: py_getitem_def is_dict_def)

lemma py_setitem_nondict: "\<not> is_dict v \<Longrightarrow> py_setitem v k x = Inl TypeError"
  by (cases v) (simp_all add: py_setitem_def is_dict_def)

lemma py_getitem_nondict: "\<not> is_dict v \<Longrightarrow> py_getitem v k = Inl TypeError"
  by (cases v) (simp_all add: py_getitem_def is_dict_def)

lemma set_default_nondict: "\<not> is_dict v \<Longrightarrow> set_default v k x = Inr v' \<Longrightarrow> v' = v"
  by (auto simp: set_default_def py_setitem_nondict split: if_splits)

lemma set_default_dict:
  assumes "is_dict v" "set_default v k x = Inr v'"
  shows "is_dict v'"
    and "field k' v' = (case field k' v of Some y \<Rightarrow> Some y | None \<Rightarrow> if k' = k then Some x else None)"
  using assms
  by (auto simp: set_default_def py_in_dict py_setitem_def is_dict_iff  split: if_splits option.splits)

lemma set_default_present: "is_dict v \<Longrightarrow> field k v \<noteq> None \<Longrightarrow> set_default v k x = Inr v"
  by (simp add: set_default_def py_in_dict)

lemma set_default_total: "is_dict v \<Longrightarrow> \<exists>v'. set_default v k x = Inr v'"
  by (auto simp: set_default_def py_in_dict py_setitem_def is_dict_iff)

lemma node_defaults1_nondict:
  "\<not> is_dict n \<Longrightarrow> node_defaults1 n = Inr n' \<Longrightarrow> n' = n"
  by (auto simp: node_defaults1_def dest: set_default_nondict)

lemma node_defaults1_dict:
  assumes "is_dict n" "node_defaults1 n = Inr n'"
  shows "is_dict n'"
    and "field k n' = (case field k n of Some y \<Rightarrow> Some y
           | None \<Rightarrow> map_of [(''disk_size'', YInt 48), (''preallocated'', YBool True),
                              (''os_variant'', YStr ''rhel8.6'')] k)"
proof -
  from assms(2) obtain a b where
    a: "set_default n ''disk_size'' (YInt 48) = Inr a"
    and b: "set_default a ''preallocated'' (YBool True) = Inr b"
    and c: "set_default b ''os_variant'' (YStr ''rhel8.6'') = Inr n'"
    by (auto simp: node_defaults1_def)
  note A = set_default_dict[OF assms(1) a]
  note B = set_default_dict[OF A(1) b]
  note C = set_default_dict[OF B(1) c]
  show "is_dict n'" by (rule C(1))
  show "field k n' = (case field k n of Some y \<Rightarrow> Some y
           | None \<Rightarrow> map_of [(''disk_size'', YInt 48), (''preallocated'', YBool True),
                              (''os_variant'', YStr ''rhel8.6'')] k)"
    by (simp add: C(2) B(2) A(2) split: option.splits)
qed


lemma node_defaults2_dict:
  assumes "is_dict n" "node_defaults2 env cc n = Inr n'"
  shows "is_dict n'"
    and "\<exists>img. \<forall>k. field k n' = (case field k n of Some y \<Rightarrow> Some y
           | None \<Rightarrow> map_of [(''bmc_ip'', YNone), (''bmc_user'', YStr ''root''),
                              (''bmc_password'', YStr ''calvin''), (''image_path'', img)] k)"
proof -
  from assms(2) obtain a b c where
    a: "set_default n ''bmc_ip'' YNone = Inr a"
    and b: "set_default a ''bmc_user'' (YStr ''root'') = Inr b"
    and c: "set_default b ''bmc_password'' (YStr ''calvin'') = Inr c"
    and d: "(if field ''image_path'' c \<noteq> None then Inr c
             else bind (py_getitem cc ''name'') (\<lambda>cn.
                  bind (py_getitem c ''name'') (\<lambda>nn.
                  py_setitem c ''image_path''
                    (YStr (path_join (''/home/'' @ fstr env cn @ ''_guests_images'')
                             (fstr env nn @ ''.qcow2'')))))) = Inr n'"
  proof -
    from assms(2) obtain a b c bb where
      a: "set_default n ''bmc_ip'' YNone = Inr a"
      and b: "set_default a ''bmc_user'' (YStr ''root'') = Inr b"
      and c: "set_default b ''bmc_password'' (YStr ''calvin'') = Inr c"
      and i: "py_in ''image_path'' c = Inr bb"
      and d: "(if bb then Inr c
             else bind (py_getitem cc ''name'') (\<lambda>cn.
                  bind (py_getitem c ''name'') (\<lambda>nn.
                  py_setitem c ''image_path''
                    (YStr (path_join (''/home/'' @ fstr env cn @ ''_guests_images'')
                             (fstr env nn @ ''.qcow2'')))))) = Inr n'"
      unfolding node_defaults2_def bind_eq_Inr by blast
    have "is_dict c"
      using set_default_dict(1)[OF set_default_dict(1)[OF set_default_dict(1)[OF assms(1) a] b] c] .
    with i have "bb = (field ''image_path'' c \<noteq> None)" by (simp add: py_in_dict)
    with a b c d that show thesis by blast
  qed
  note A = set_default_dict[OF assms(1) a]
  note B = set_default_dict[OF A(1) b]
  note C = set_default_dict[OF B(1) c]
  show "is_dict n'"
    using d C(1) by (auto simp: py_setitem_def is_dict_iff split: if_splits)
  show "\<exists>img. \<forall>k. field k n' = (case field k n of Some y \<Rightarrow> Some y
           | None \<Rightarrow> map_of [(''bmc_ip'', YNone), (''bmc_user'', YStr ''root''),
                              (''bmc_password'', YStr ''calvin''), (''image_path'', img)] k)"
  proof (cases "field ''image_path'' c")
    case None
    with d obtain img where s: "py_setitem c ''image_path'' img = Inr n'"
      by auto
    from C(1) obtain dc where dc: "c = YDict dc" by (auto simp: is_dict_iff)
    have "\<forall>k. field k n' = (if k = ''image_path'' then Some img else field k c)"
      using s by (auto simp: py_setitem_def dc)
    then show ?thesis
      using None by (intro exI[of _ img]) (simp add: C(2) B(2) A(2) split: option.splits)
  next
    case (Some y)
    with d have "n' = c" by simp
    then show ?thesis using Some
      by (intro exI[of _ YNone]) (auto simp add: C(2) B(2) A(2) split: option.splits)
  qed
qed


lemma host_defaults_dict:
  assumes "is_dict h" "host_defaults cc h = Inr h'"
  shows "is_dict h'"
    and "field ''network_api_port'' cc \<noteq> None \<Longrightarrow>
         \<exists>p. field ''network_api_port'' cc = Some p
           \<and> (\<forall>k. field k h' = (case field k h of Some y \<Rightarrow> Some y
           | None \<Rightarrow> map_of [(''network_api_port'', p), (''username'', YStr ''core''),
                              (''password'', YNone), (''pre_installed'', YStr ''True'')] k))"
proof -
  from assms(2) obtain a b c where
    a: "(if field ''network_api_port'' h \<noteq> None then Inr h
         else bind (py_getitem cc ''network_api_port'') (\<lambda>p.
              py_setitem h ''network_api_port'' p)) = Inr a"
    and b: "set_default a ''username'' (YStr ''core'') = Inr b"
    and c: "set_default b ''password'' YNone = Inr c"
    and d: "set_default c ''pre_installed'' (YStr ''True'') = Inr h'"
    unfolding host_defaults_def bind_eq_Inr py_in_dict[OF assms(1)] by auto
  from assms(1) obtain dh where dh: "h = YDict dh" by (auto simp: is_dict_iff)
  have A1: "is_dict a"
    using a assms(1) by (auto simp: py_setitem_def dh is_dict_def split: if_splits)
  note B = set_default_dict[OF A1 b]
  note C = set_default_dict[OF B(1) c]
  note D = set_default_dict[OF C(1) d]
  show "is_dict h'" by (rule D(1))
  show "\<exists>p. field ''network_api_port'' cc = Some p
           \<and> (\<forall>k. field k h' = (case field k h of Some y \<Rightarrow> Some y
           | None \<Rightarrow> map_of [(''network_api_port'', p), (''username'', YStr ''core''),
                              (''password'', YNone), (''pre_installed'', YStr ''True'')] k))"
    if that: "field ''network_api_port'' cc \<noteq> None"
  proof -
    from that obtain p where p: "field ''network_api_port'' cc = Some p" by auto
    have A2: "\<forall>k. field k a = (case field k h of Some y \<Rightarrow> Some y
           | None \<Rightarrow> if k = ''network_api_port'' then Some p else None)"
      using a p by (auto simp: py_setitem_def dh py_getitem_field split: if_splits option.splits)
    show ?thesis
      by (intro exI[of _ p]) (simp add: p D(2) C(2) B(2) A2 split: option.splits)
  qed
qed

lemma host_defaults_full:
  "is_dict h \<Longrightarrow> field ''network_api_port'' h \<noteq> None \<Longrightarrow> field ''username'' h \<noteq> None
     \<Longrightarrow> field ''password'' h \<noteq> None \<Longrightarrow> field ''pre_installed'' h \<noteq> None
     \<Longrightarrow> host_defaults cc h = Inr h"
  by (simp add: host_defaults_def set_default_present py_in_dict)

lemma map_of_snoc:
  "map_of (D @ [(k, x)]) k' = (case map_of D k' of Some y \<Rightarrow> Some y | None \<Rightarrow> if k' = k then Some x else None)"
  by (induction D) auto

lemma field_Some_dict: "field k v = Some x \<Longrightarrow> is_dict v"
  by (cases v) (simp_all add: field_def is_dict_def)

lemma defaulted_refl: "is_dict a \<Longrightarrow> defaulted [] a a"
  by (simp add: defaulted_def split: option.splits)

lemma defaultedD:
  "defaulted D a b \<Longrightarrow> is_dict b"
  "defaulted D a b \<Longrightarrow> field k b = (case field k a of Some y \<Rightarrow> Some y | None \<Rightarrow> map_of D k)"
  by (simp_all add: defaulted_def)

lemma defaulted_step:
  assumes "defaulted D a b" "set_default b k x = Inr c"
  shows "defaulted (D @ [(k, x)]) a c"
proof -
  note C = set_default_dict[OF defaultedD(1)[OF assms(1)] assms(2)]
  show ?thesis
    unfolding defaulted_def
    by (simp add: C defaultedD(2)[OF assms(1)] map_of_snoc del: map_of_append
          split: option.splits)
qed

lemma defaulted_weaken:
  assumes "defaulted D a b" "field k b \<noteq> None"
  shows "defaulted (D @ [(k, x)]) a b"
proof -
  have "field k' b = (case field k' a of Some y \<Rightarrow> Some y | None \<Rightarrow> map_of (D @ [(k, x)]) k')" for k'
    using assms(2) defaultedD(2)[OF assms(1), of k'] defaultedD(2)[OF assms(1), of k]
    by (simp add: map_of_snoc del: map_of_append split: option.splits)
  then show ?thesis
    unfolding defaulted_def using defaultedD(1)[OF assms(1)] by simp
qed

lemma defaulted_setitem:
  assumes "defaulted D a b" "field k b = None" "py_setitem b k x = Inr c"
  shows "defaulted (D @ [(k, x)]) a c"
proof -
  from defaultedD(1)[OF assms(1)] obtain d where d: "b = YDict d" by (auto simp: is_dict_iff)
  have c: "c = YDict (dict_update k x d)" using assms(3) by (simp add: py_setitem_def d)
  have "field k' c = (case field k' a of Some y \<Rightarrow> Some y | None \<Rightarrow> map_of (D @ [(k, x)]) k')" for k'
    using assms(2) defaultedD(2)[OF assms(1), of k'] defaultedD(2)[OF assms(1), of k]
    by (simp add: c d map_of_snoc del: map_of_append split: option.splits)
  then show ?thesis
    unfolding defaulted_def by (simp add: c is_dict_def)
qed

lemma cluster_defaults_nondict:
  assumes "\<not> is_dict v" "cluster_defaults env v = Inr v'"
  shows "v' = v"
proof -
  from assms(2) obtain c1 c2 b c3 c4 c5 c6 c7 c8 c9 where
    s: "set_default v ''masters'' (YList []) = Inr c1"
       "set_default c1 ''workers'' (YList []) = Inr c2"
       "py_in ''kubeconfig'' c2 = Inr b"
       "(if b then Inr c2
           else bind (py_getitem c2 ''name'') (\<lambda>cn.
                py_setitem c2 ''kubeconfig''
                  (YStr (path_join (cwd env) (''kubeconfig.'' @ fstr env cn))))) = Inr c3"
       "set_default c3 ''preconfig'' (YStr []) = Inr c4"
       "set_default c4 ''postconfig'' (YStr []) = Inr c5"
       "set_default c5 ''version'' (YStr ''4.13.0-ec.3'') = Inr c6"
       "set_default c6 ''external_port'' (YStr ''auto'') = Inr c7"
       "set_default c7 ''network_api_port'' (YStr ''auto'') = Inr c8"
       "set_default c8 ''proxy'' YNone = Inr c9"
       "set_default c9 ''hosts'' (YList []) = Inr v'"
    unfolding cluster_defaults_def bind_eq_Inr by blast
  have 1: "c1 = v" using set_default_nondict[OF assms(1) s(1)] .
  have 2: "c2 = v" using set_default_nondict[OF _ s(2)] assms(1) 1 by simp
  have 3: "c3 = v" using s(4) 2 assms(1) by (auto simp: py_getitem_nondict split: if_splits)
  have 4: "c4 = v" using set_default_nondict[OF _ s(5)] assms(1) 3 by simp
  have 5: "c5 = v" using set_default_nondict[OF _ s(6)] assms(1) 4 by simp
  have 6: "c6 = v" using set_default_nondict[OF _ s(7)] assms(1) 5 by simp
  have 7: "c7 = v" using set_default_nondict[OF _ s(8)] assms(1) 6 by simp
  have 8: "c8 = v" using set_default_nondict[OF _ s(9)] assms(1) 7 by simp
  have 9: "c9 = v" using set_default_nondict[OF _ s(10)] assms(1) 8 by simp
  show ?thesis using set_default_nondict[OF _ s(11)] assms(1) 9 by simp
qed

lemma cluster_defaults_dict:
  assumes "is_dict v" "cluster_defaults env v = Inr v'"
  shows "\<exists>kc. defaulted [(''masters'', YList []), (''workers'', YList []), (''kubeconfig'', kc),
            (''preconfig'', YStr []), (''postconfig'', YStr []), (''version'', YStr ''4.13.0-ec.3''),
            (''external_port'', YStr ''auto''), (''network_api_port'', YStr ''auto''),
            (''proxy'', YNone), (''hosts'', YList [])] v v'"
proof -
  from assms(2) obtain c1 c2 b c3 c4 c5 c6 c7 c8 c9 where
    s: "set_default v ''masters'' (YList []) = Inr c1"
       "set_default c1 ''workers'' (YList []) = Inr c2"
       "py_in ''kubeconfig'' c2 = Inr b"
       "(if b then Inr c2
           else bind (py_getitem c2 ''name'') (\<lambda>cn.
                py_setitem c2 ''kubeconfig''
                  (YStr (path_join (cwd env) (''kubeconfig.'' @ fstr env cn))))) = Inr c3"
       "set_default c3 ''preconfig'' (YStr []) = Inr c4"
       "set_default c4 ''postconfig'' (YStr []) = Inr c5"
       "set_default c5 ''version'' (YStr ''4.13.0-ec.3'') = Inr c6"
       "set_default c6 ''external_port'' (YStr ''auto'') = Inr c7"
       "set_default c7 ''network_api_port'' (YStr ''auto'') = Inr c8"
       "set_default c8 ''proxy'' YNone = Inr c9"
       "set_default c9 ''hosts'' (YList []) = Inr v'"
    unfolding cluster_defaults_def bind_eq_Inr by blast
  note d0 = defaulted_refl[OF assms(1)]
  note d1 = defaulted_step[OF d0 s(1)]
  note d2 = defaulted_step[OF d1 s(2)]
  have dc2: "is_dict c2" using d2 by (simp add: defaulted_def)
  have b: "b = (field ''kubeconfig'' c2 \<noteq> None)"
    using s(3) by (simp add: py_in_dict[OF dc2])
  obtain kc where d3: "defaulted (([] @ [(''masters'', YList [])]) @ [(''workers'', YList [])]
                                  @ [(''kubeconfig'', kc)]) v c3"
  proof (cases b)
    case True
    then have "c3 = c2" using s(4) by simp
    with defaulted_weaken[OF d2, of "''kubeconfig''" YNone] True b that show thesis
      by auto
  next
    case False
    with s(4) obtain kc where "py_setitem c2 ''kubeconfig'' kc = Inr c3" by auto
    with defaulted_setitem[OF d2, of "''kubeconfig''" kc c3] False b that show thesis
      by auto
  qed
  note d4 = defaulted_step[OF d3 s(5)]
  note d5 = defaulted_step[OF d4 s(6)]
  note d6 = defaulted_step[OF d5 s(7)]
  note d7 = defaulted_step[OF d6 s(8)]
  note d8 = defaulted_step[OF d7 s(9)]
  note d9 = defaulted_step[OF d8 s(10)]
  note d10 = defaulted_step[OF d9 s(11)]
  show ?thesis
    using d10 by (intro exI[of _ kc]) simp
qed


lemma names_keys:
  assumes "mapM (\<lambda>x. bind (py_getitem x ''name'') py_hash) hs = Inr ks"
  shows "ks = map (\<lambda>h. key_of (field ''name'' h)) hs"
    and "\<forall>h \<in> set hs. is_dict h \<and> (\<exists>nm k. field ''name'' h = Some nm \<and> py_hash nm = Inr k)"
  using assms
proof (induction hs arbitrary: ks)
  case Nil
  { case 1 then show ?case by simp }
  { case 2 then show ?case by simp }
next
  case (Cons h hs)
  { case 1
    then show ?case using Cons.IH(1)
      by (auto simp: py_getitem_field key_of_def) }
  { case 2
    then show ?case using Cons.IH(2)
      by (auto simp: py_getitem_field dest: field_Some_dict) }
qed


lemma node_value_field: "field ''node'' n = Some nd \<Longrightarrow> node_value n = nd"
  by (simp add: node_value_def)

lemma key_of_hash: "py_hash nd = Inr k \<Longrightarrow> key_of (Some nd) = k"
  by (simp add: key_of_def)

lemma synth_hosts_ok:
  assumes "synth_hosts ns hv seen = Inr hv'"
  shows "\<forall>n \<in> set ns. \<exists>nd k. field ''node'' n = Some nd \<and> py_hash nd = Inr k"
    and "elems hv' = elems hv @ map (\<lambda>nd. YDict [(''name'', nd)]) (fresh seen (map node_value ns))"
    and "hv' = hv \<and> fresh seen (map node_value ns) = [] \<or> (\<exists>xs. hv = YList xs) \<and> (\<exists>xs. hv' = YList xs)"
  using assms
proof (induction ns arbitrary: hv seen)
  case Nil
  { case 1 then show ?case by simp }
  { case 2 then show ?case by simp }
  { case 3 then show ?case by simp }
next
  case (Cons n ns)
  { case 1
    then show ?case using Cons.IH(1)
      by (auto simp: py_getitem_field split: if_splits) }
  { case 2
    from 2 obtain nd k where nd: "field ''node'' n = Some nd" and k: "py_hash nd = Inr k"
      and r: "(if k \<notin> set seen
               then bind (py_append hv (YDict [(''name'', nd)])) (\<lambda>hosts'.
                      synth_hosts ns hosts' (k # seen))
               else synth_hosts ns hv seen) = Inr hv'"
      by (auto simp: py_getitem_field)
    show ?case
    proof (cases "k \<in> set seen")
      case True
      with r have "synth_hosts ns hv seen = Inr hv'" by simp
      from Cons.IH(2)[OF this] True show ?thesis
        by (simp add: node_value_field[OF nd] key_of_hash[OF k])
    next
      case False
      with r obtain hv1 where a: "py_append hv (YDict [(''name'', nd)]) = Inr hv1"
        and s: "synth_hosts ns hv1 (k # seen) = Inr hv'" by auto
      from a have "elems hv1 = elems hv @ [YDict [(''name'', nd)]]"
        by (cases hv) (auto simp: py_append_def elems_def)
      with Cons.IH(2)[OF s] False show ?thesis
        by (simp add: node_value_field[OF nd] key_of_hash[OF k])
    qed }
  { case 3
    from 3 obtain nd k where nd: "field ''node'' n = Some nd" and k: "py_hash nd = Inr k"
      and r: "(if k \<notin> set seen
               then bind (py_append hv (YDict [(''name'', nd)])) (\<lambda>hosts'.
                      synth_hosts ns hosts' (k # seen))
               else synth_hosts ns hv seen) = Inr hv'"
      by (auto simp: py_getitem_field)
    show ?case
    proof (cases "k \<in> set seen")
      case True
      with r have "synth_hosts ns hv seen = Inr hv'" by simp
      from Cons.IH(3)[OF this] True show ?thesis
        by (simp add: node_value_field[OF nd] key_of_hash[OF k])
    next
      case False
      with r obtain hv1 where a: "py_append hv (YDict [(''name'', nd)]) = Inr hv1"
        and s: "synth_hosts ns hv1 (k # seen) = Inr hv'" by auto
      from a have "(\<exists>xs. hv = YList xs) \<and> (\<exists>xs. hv1 = YList xs)"
        by (cases hv) (auto simp: py_append_def)
      with Cons.IH(3)[OF s] show ?thesis
        by auto
    qed }
qed


lemma filter_fresh_aux:
  "filter (\<lambda>y. y \<noteq> k) (filter (\<lambda>x. x \<notin> set seen) ks) = filter (\<lambda>x. x \<notin> set (k # seen)) ks"
  by (induction ks) auto

lemma fresh_first_seen:
  "map (\<lambda>nd. key_of (Some nd)) (fresh seen nds)
     = first_seen (filter (\<lambda>k. k \<notin> set seen) (map (\<lambda>nd. key_of (Some nd)) nds))"
  by (induction nds arbitrary: seen) (simp_all add: filter_fresh_aux conj_commute)


lemma nodes_shape0:
  assumes "py_add ms ws = Inr s" "py_iter s = Inr ns" "\<forall>n \<in> set ns. is_dict n"
  shows "(\<exists>a b. ms = YList a \<and> ws = YList b \<and> ns = a @ b)
          \<or> (ms = YStr [] \<and> ws = YStr [] \<and> ns = [])"
proof (cases "(ms, ws)" rule: py_add.cases)
  case (1 a b)
  then show ?thesis using assms by (auto simp: py_iter_def)
next
  case (2 a b)
  then have "ns = map (\<lambda>c. YStr [c]) (a @ b)" using assms by (auto simp: py_iter_def)
  with assms(3) have "a @ b = []" by (cases "a @ b") (auto simp: is_dict_def)
  with 2 \<open>ns = map (\<lambda>c. YStr [c]) (a @ b)\<close> show ?thesis by simp
qed (use assms in \<open>auto simp: py_iter_def\<close>)

lemma nodes_shape:
  assumes "py_add ms ws = Inr s" "py_iter s = Inr ns" "\<forall>n \<in> set ns. is_dict n"
  shows "ns = elems ms @ elems ws"
    and "seq_len ms = length (elems ms)"
    and "length xs = length ns \<Longrightarrow>
           \<exists>s'. py_add (put_back ms (take (seq_len ms) xs)) (put_back ws (drop (seq_len ms) xs)) = Inr s'
                \<and> py_iter s' = Inr xs"
    and "length xs = length ns \<Longrightarrow>
           put_back (put_back ms (take (seq_len ms) xs))
                    (take (seq_len (put_back ms (take (seq_len ms) xs))) xs)
             = put_back ms (take (seq_len ms) xs)
           \<and> put_back (put_back ws (drop (seq_len ms) xs))
                    (drop (seq_len (put_back ms (take (seq_len ms) xs))) xs)
             = put_back ws (drop (seq_len ms) xs)"
proof -
  note sh = nodes_shape0[OF assms]
  show "ns = elems ms @ elems ws"
    using sh by (auto simp: elems_def)
  show "seq_len ms = length (elems ms)"
    using sh by (auto simp: elems_def seq_len_def)
  show "\<exists>s'. py_add (put_back ms (take (seq_len ms) xs)) (put_back ws (drop (seq_len ms) xs)) = Inr s'
                \<and> py_iter s' = Inr xs" if "length xs = length ns"
    using sh that by (auto simp: py_iter_def seq_len_def put_back_def)
  show "put_back (put_back ms (take (seq_len ms) xs))
                    (take (seq_len (put_back ms (take (seq_len ms) xs))) xs)
             = put_back ms (take (seq_len ms) xs)
           \<and> put_back (put_back ws (drop (seq_len ms) xs))
                    (drop (seq_len (put_back ms (take (seq_len ms) xs))) xs)
             = put_back ws (drop (seq_len ms) xs)" if "length xs = length ns"
    using sh that by (auto simp: seq_len_def put_back_def)
qed

lemma hosts_shape:
  assumes "py_iter hv = Inr hs" "\<forall>h \<in> set hs. is_dict h"
  shows "hs = elems hv"
    and "(\<exists>xs. hv = YList xs) \<or> hs = []"
proof -
  show "hs = elems hv"
    using assms by (cases hv; cases hs) (auto simp: py_iter_def elems_def is_dict_def)
  show "(\<exists>xs. hv = YList xs) \<or> hs = []"
    using assms by (cases hv; cases hs) (auto simp: py_iter_def elems_def is_dict_def)
qed

lemma store_dict:
  "is_dict cc \<Longrightarrow> is_dict (store cc key x)"
  "is_dict cc \<Longrightarrow> field k (store cc key x) = (if k = key then Some x else field k cc)"
  by (auto simp: is_dict_iff store_def)


lemma cascade_elim:
  assumes "cascade env cc0 = Inr cc'"
  obtains cc ms ws s ns0 ns1 hv0 hs0 ks hv1 ns2 hs1 hs2 where
    "cluster_defaults env cc0 = Inr cc"
    "py_getitem cc ''masters'' = Inr ms"
    "py_getitem cc ''workers'' = Inr ws"
    "py_add ms ws = Inr s"
    "py_iter s = Inr ns0"
    "mapM node_defaults1 ns0 = Inr ns1"
    "py_getitem cc ''hosts'' = Inr hv0"
    "py_iter hv0 = Inr hs0"
    "mapM (\<lambda>x. bind (py_getitem x ''name'') py_hash) hs0 = Inr ks"
    "synth_hosts ns1 hv0 ks = Inr hv1"
    "mapM (node_defaults2 env cc) ns1 = Inr ns2"
    "py_iter hv1 = Inr hs1"
    "mapM (host_defaults cc) hs1 = Inr hs2"
    "store (store (store cc ''masters'' (put_back ms (take (seq_len ms) ns2)))
               ''workers'' (put_back ws (drop (seq_len ms) ns2)))
            ''hosts'' (put_back hv1 hs2) = cc'"
  using assms unfolding cascade_def bind_eq_Inr
  by (elim exE conjE) (rule that; (assumption | simp))

lemma fresh_subset: "set (fresh seen nds) \<subseteq> set nds"
  by (induction nds arbitrary: seen) (auto split: if_splits)

lemma elems_put_back_take:
  "elems (put_back v (take (seq_len v) xs)) = take (length (elems v)) xs"
  by (cases v) (simp_all add: elems_def put_back_def seq_len_def)

lemma node_steps:
  assumes 1: "node_defaults1 n = Inr n1" and 2: "node_defaults2 env cc n1 = Inr n2"
    and nd: "field ''node'' n1 = Some nd" "py_hash nd = Inr k"
  shows "node_rel n n2" and "node_value n1 = node_value n"
proof -
  have d1: "is_dict n1" using nd(1) by (rule field_Some_dict)
  have d: "is_dict n"
  proof (rule ccontr)
    assume "\<not> is_dict n"
    with node_defaults1_nondict[OF _ 1] d1 show False by simp
  qed
  note A = node_defaults1_dict[OF d 1]
  note B = node_defaults2_dict[OF d1 2]
  from B(2) obtain img where img: "\<And>k. field k n2 = (case field k n1 of Some y \<Rightarrow> Some y
           | None \<Rightarrow> map_of [(''bmc_ip'', YNone), (''bmc_user'', YStr ''root''),
                              (''bmc_password'', YStr ''calvin''), (''image_path'', img)] k)"
    by blast
  have n: "field ''node'' n = Some nd"
    using nd(1) A(2)[of "''node''"] by (simp split: option.splits)
  show "node_value n1 = node_value n"
    by (simp add: node_value_def n nd(1))
  have "\<forall>k. field k n2 = (case field k n of Some y \<Rightarrow> Some y
            | None \<Rightarrow> map_of [(''disk_size'', YInt 48), (''preallocated'', YBool True),
                               (''os_variant'', YStr ''rhel8.6''), (''bmc_ip'', YNone),
                               (''bmc_user'', YStr ''root''), (''bmc_password'', YStr ''calvin''),
                               (''image_path'', img)] k)"
    by (simp add: img A(2) split: option.splits)
  then show "node_rel n n2"
    unfolding node_rel_def using d B(1) n nd(2) by blast
qed

lemma host_step:
  assumes 1: "host_defaults cc h = Inr h2"
    and nm: "field ''name'' h = Some nm" "py_hash nm = Inr k"
    and p: "field ''network_api_port'' cc \<noteq> None"
  shows "host_rel cc h h2"
proof -
  have d: "is_dict h" using nm(1) by (rule field_Some_dict)
  note A = host_defaults_dict[OF d 1]
  show ?thesis
    unfolding host_rel_def using d A(1) A(2)[OF p] nm by blast
qed

lemma list_all2_compose:
  assumes "list_all2 P xs ys" "list_all2 Q ys zs"
    and "\<And>x y z. P x y \<Longrightarrow> Q y z \<Longrightarrow> R x z"
  shows "list_all2 R xs zs"
  using assms(1,2)
  by (rule list_all2_trans[rotated]) (rule assms(3))

lemma seq_field_defaulted:
  assumes "defaulted D cc0 cc" "field key cc = Some v" "map_of D key = Some (YList [])"
  shows "seq_field key cc0 = elems v"
  using assms(2,3) defaultedD(2)[OF assms(1), of key]
  by (auto simp: seq_field_def elems_def split: option.splits)

lemma cascade_run:
  assumes "cascade env cc0 = Inr cc'"
  obtains cc kc M W H ns2 hs2 s' where
    "is_dict cc0" "defaulted (cluster_dflt kc) cc0 cc"
    "list_all2 node_rel (seq_field ''masters'' cc0 @ seq_field ''workers'' cc0) ns2"
    "list_all2 (host_rel cc)
       (seq_field ''hosts'' cc0
        @ map (\<lambda>nd. YDict [(''name'', nd)])
            (fresh (map (\<lambda>h. key_of (field ''name'' h)) (seq_field ''hosts'' cc0))
                   (map node_value (seq_field ''masters'' cc0 @ seq_field ''workers'' cc0))))
       hs2"
    "is_dict cc'"
    "\<And>k. field k cc' = (if k = ''hosts'' then Some H else if k = ''workers'' then Some W
                          else if k = ''masters'' then Some M else field k cc)"
    "elems M = take (length (seq_field ''masters'' cc0)) ns2"
    "elems W = drop (length (seq_field ''masters'' cc0)) ns2"
    "elems H = hs2"
    "py_add M W = Inr s'" "py_iter s' = Inr ns2"
    "put_back M (take (seq_len M) ns2) = M" "put_back W (drop (seq_len M) ns2) = W"
    "py_iter H = Inr hs2" "put_back H hs2 = H"
    "\<And>v. field ''masters'' cc0 = Some v \<Longrightarrow> M = put_back v (elems M)"
    "\<And>v. field ''workers'' cc0 = Some v \<Longrightarrow> W = put_back v (elems W)"
    "\<And>v. field ''hosts'' cc0 = Some v \<Longrightarrow> H = put_back v hs2"
proof -
  from assms obtain cc ms ws s ns0 ns1 hv0 hs0 ks hv1 ns2 hs1 hs2 where
    E1: "cluster_defaults env cc0 = Inr cc"
    and E2: "py_getitem cc ''masters'' = Inr ms"
    and E3: "py_getitem cc ''workers'' = Inr ws"
    and E4: "py_add ms ws = Inr s"
    and E5: "py_iter s = Inr ns0"
    and E6: "mapM node_defaults1 ns0 = Inr ns1"
    and E7: "py_getitem cc ''hosts'' = Inr hv0"
    and E8: "py_iter hv0 = Inr hs0"
    and E9: "mapM (\<lambda>x. bind (py_getitem x ''name'') py_hash) hs0 = Inr ks"
    and E10: "synth_hosts ns1 hv0 ks = Inr hv1"
    and E11: "mapM (node_defaults2 env cc) ns1 = Inr ns2"
    and E12: "py_iter hv1 = Inr hs1"
    and E13: "mapM (host_defaults cc) hs1 = Inr hs2"
    and E14: "store (store (store cc ''masters'' (put_back ms (take (seq_len ms) ns2)))
               ''workers'' (put_back ws (drop (seq_len ms) ns2)))
            ''hosts'' (put_back hv1 hs2) = cc'"
    by (rule cascade_elim)
  define M where "M = put_back ms (take (seq_len ms) ns2)"
  define W where "W = put_back ws (drop (seq_len ms) ns2)"
  define H where "H = put_back hv1 hs2"
  text \<open>the cluster\<close>
  have dcc0: "is_dict cc0"
  proof (rule ccontr)
    assume n: "\<not> is_dict cc0"
    with cluster_defaults_nondict[OF n E1] E2 show False
      by (simp add: py_getitem_nondict)
  qed
  from cluster_defaults_dict[OF dcc0 E1] obtain kc where dfl: "defaulted (cluster_dflt kc) cc0 cc"
    by blast
  have dcc: "is_dict cc" by (rule defaultedD(1)[OF dfl])
  have fms: "field ''masters'' cc = Some ms" and fws: "field ''workers'' cc = Some ws"
    and fhv: "field ''hosts'' cc = Some hv0"
    using E2 E3 E7 by (simp_all add: py_getitem_field)
  have sm: "seq_field ''masters'' cc0 = elems ms"
    by (rule seq_field_defaulted[OF dfl fms]) simp
  have sw: "seq_field ''workers'' cc0 = elems ws"
    by (rule seq_field_defaulted[OF dfl fws]) simp
  have sh: "seq_field ''hosts'' cc0 = elems hv0"
    by (rule seq_field_defaulted[OF dfl fhv]) simp
  have nap: "field ''network_api_port'' cc \<noteq> None"
    using defaultedD(2)[OF dfl, of "''network_api_port''"] by (simp split: option.splits)
  text \<open>the nodes\<close>
  note S = synth_hosts_ok[OF E10]
  have L1: "list_all2 (\<lambda>n n1. node_defaults1 n = Inr n1) ns0 ns1"
    using E6 by (simp add: mapM_eq_Inr)
  have L2: "list_all2 (\<lambda>n1 n2. node_defaults2 env cc n1 = Inr n2) ns1 ns2"
    using E11 by (simp add: mapM_eq_Inr)
  have L1': "list_all2 (\<lambda>n n1. node_defaults1 n = Inr n1
                \<and> (\<exists>nd k. field ''node'' n1 = Some nd \<and> py_hash nd = Inr k)) ns0 ns1"
    using L1 S(1) by (auto simp: list_all2_conv_all_nth)
  have NR: "list_all2 node_rel ns0 ns2"
    using L1' L2 by (rule list_all2_compose) (auto intro: node_steps(1))
  have NV: "map node_value ns1 = map node_value ns0"
  proof (rule nth_equalityI)
    show "length (map node_value ns1) = length (map node_value ns0)"
      using L1 by (simp add: list_all2_lengthD)
    fix i assume "i < length (map node_value ns1)"
    then have i: "i < length ns1" by simp
    from L1' i obtain nd k where a: "node_defaults1 (ns0 ! i) = Inr (ns1 ! i)"
      and nd: "field ''node'' (ns1 ! i) = Some nd" "py_hash nd = Inr k"
      by (auto simp: list_all2_conv_all_nth)
    from L2 i have b: "node_defaults2 env cc (ns1 ! i) = Inr (ns2 ! i)"
      by (auto simp: list_all2_conv_all_nth)
    from node_steps(2)[OF a b nd] i L1
    show "map node_value ns1 ! i = map node_value ns0 ! i"
      by (simp add: list_all2_lengthD)
  qed
  have dn0: "\<forall>n \<in> set ns0. is_dict n"
    using NR by (auto simp: list_all2_conv_all_nth in_set_conv_nth node_rel_def)
  note SH = nodes_shape[OF E4 E5 dn0]
  have ns0: "ns0 = seq_field ''masters'' cc0 @ seq_field ''workers'' cc0"
    using SH(1) sm sw by simp
  have len2: "length ns2 = length ns0"
    using NR by (simp add: list_all2_lengthD)
  text \<open>the hosts\<close>
  note K = names_keys[OF E9]
  have dh0: "\<forall>h \<in> set hs0. is_dict h" using K(2) by blast
  note HS0 = hosts_shape[OF E8 dh0]
  have hs0: "hs0 = seq_field ''hosts'' cc0" using HS0(1) sh by simp
  define new where "new = map (\<lambda>nd. YDict [(''name'', nd)]) (fresh ks (map node_value ns0))"
  have ehv1: "elems hv1 = hs0 @ new"
    using S(2) by (simp add: new_def NV HS0(1))
  have hs1: "hs1 = hs0 @ new" and H1: "(\<exists>xs. hv1 = YList xs) \<or> hs2 = []"
  proof -
    from S(3) have "hs1 = hs0 @ new \<and> ((\<exists>xs. hv1 = YList xs) \<or> hs1 = [])"
    proof
      assume a: "hv1 = hv0 \<and> fresh ks (map node_value ns1) = []"
      then have "new = []" by (simp add: new_def NV)
      with a E12 E8 HS0(2) show ?thesis by auto
    next
      assume "(\<exists>xs. hv0 = YList xs) \<and> (\<exists>xs. hv1 = YList xs)"
      then obtain xs where xs: "hv1 = YList xs" by blast
      with E12 have "hs1 = xs" by (simp add: py_iter_def)
      with xs ehv1 show ?thesis by (simp add: elems_def)
    qed
    then show "hs1 = hs0 @ new" by simp
    from \<open>hs1 = hs0 @ new \<and> ((\<exists>xs. hv1 = YList xs) \<or> hs1 = [])\<close> E13
    show "(\<exists>xs. hv1 = YList xs) \<or> hs2 = []" by auto
  qed
  have hash_new: "\<forall>h \<in> set new. \<exists>nm k. field ''name'' h = Some nm \<and> py_hash nm = Inr k"
  proof
    fix h assume "h \<in> set new"
    then obtain nd where nd: "nd \<in> set (fresh ks (map node_value ns0))" and h: "h = YDict [(''name'', nd)]"
      by (auto simp: new_def)
    from nd fresh_subset have "nd \<in> set (map node_value ns0)" by blast
    then obtain n where n: "n \<in> set ns0" and v: "nd = node_value n" by auto
    from n NR obtain n2 where "node_rel n n2"
      by (auto simp: list_all2_conv_all_nth in_set_conv_nth)
    then obtain x k where "field ''node'' n = Some x" "py_hash x = Inr k"
      by (auto simp: node_rel_def)
    with v have "py_hash nd = Inr k" by (simp add: node_value_def)
    with h show "\<exists>nm k. field ''name'' h = Some nm \<and> py_hash nm = Inr k" by simp
  qed
  have L3: "list_all2 (\<lambda>h h2. host_defaults cc h = Inr h2
               \<and> (\<exists>nm k. field ''name'' h = Some nm \<and> py_hash nm = Inr k)) hs1 hs2"
    using E13 K(2) hash_new unfolding hs1
    by (auto simp: mapM_eq_Inr list_all2_conv_all_nth all_set_conv_all_nth nth_append)
  have HR: "list_all2 (host_rel cc) hs1 hs2"
    using L3 by (rule list_all2_mono) (auto intro: host_step[OF _ _ _ nap])
  have ks: "ks = map (\<lambda>h. key_of (field ''name'' h)) (seq_field ''hosts'' cc0)"
    using K(1) hs0 by simp
  text \<open>the result\<close>
  have cc': "cc' = store (store (store cc ''masters'' M) ''workers'' W) ''hosts'' H"
    using E14 by (simp add: M_def W_def H_def)
  have dcc': "is_dict cc'"
    unfolding cc' by (intro store_dict(1) dcc)
  have fcc': "field k cc' = (if k = ''hosts'' then Some H else if k = ''workers'' then Some W
                          else if k = ''masters'' then Some M else field k cc)" for k
    unfolding cc' by (simp add: store_dict dcc)
  have eM: "elems M = take (length (seq_field ''masters'' cc0)) ns2"
    unfolding M_def sm by (rule elems_put_back_take)
  have eW: "elems W = drop (length (seq_field ''masters'' cc0)) ns2"
    using nodes_shape0[OF E4 E5 dn0] len2
    unfolding W_def sm by (auto simp: elems_def put_back_def seq_len_def)
  have eH: "elems H = hs2"
    using H1 unfolding H_def
  proof
    assume "\<exists>xs. hv1 = YList xs"
    then show "elems (put_back hv1 hs2) = hs2" by (auto simp: put_back_def elems_def)
  next
    assume e: "hs2 = []"
    with E13 have "hs1 = []" by (auto simp: mapM_eq_Inr)
    with ehv1 hs1 have "elems hv1 = []" by simp
    then show "elems (put_back hv1 hs2) = hs2"
      using e by (cases hv1) (auto simp: put_back_def elems_def)
  qed
  from SH(3)[of ns2] len2 obtain s' where a': "py_add M W = Inr s'" and i': "py_iter s' = Inr ns2"
    unfolding M_def W_def by auto
  have pb: "put_back M (take (seq_len M) ns2) = M" "put_back W (drop (seq_len M) ns2) = W"
    using SH(4)[of ns2] len2 unfolding M_def W_def by auto
  have iH: "py_iter H = Inr hs2" and pH: "put_back H hs2 = H"
  proof -
    from H1 show "py_iter H = Inr hs2"
    proof
      assume "\<exists>xs. hv1 = YList xs"
      then show ?thesis by (auto simp: H_def put_back_def py_iter_def)
    next
      assume e: "hs2 = []"
      with E13 have "hs1 = []" by (auto simp: mapM_eq_Inr)
      with E12 e show ?thesis by (cases hv1) (auto simp: H_def put_back_def py_iter_def)
    qed
    show "put_back H hs2 = H"
      by (cases hv1) (simp_all add: H_def put_back_def)
  qed
  have kM: "M = put_back v (elems M)" if "field ''masters'' cc0 = Some v" for v
  proof -
    from that fms defaultedD(2)[OF dfl, of "''masters''"] have "ms = v" by simp
    then show ?thesis by (cases v) (simp_all add: M_def put_back_def elems_def)
  qed
  have kW: "W = put_back v (elems W)" if "field ''workers'' cc0 = Some v" for v
  proof -
    from that fws defaultedD(2)[OF dfl, of "''workers''"] have "ws = v" by simp
    then show ?thesis by (cases v) (simp_all add: W_def put_back_def elems_def)
  qed
  have kH: "H = put_back v hs2" if "field ''hosts'' cc0 = Some v" for v
  proof -
    from that fhv defaultedD(2)[OF dfl, of "''hosts''"] have "hv0 = v" by simp
    with S(3) show ?thesis by (auto simp: H_def put_back_def)
  qed
  show thesis
    by (rule that[OF dcc0 dfl NR[unfolded ns0] HR[unfolded hs1 new_def hs0 ks ns0]
          dcc' fcc' eM eW eH a' i' pb iH pH kM kW kH])
qed



lemma host_rel_full:
  assumes "host_rel cc h h2"
  shows "host_defaults cc' h2 = Inr h2"
    and "\<exists>nm k. field ''name'' h2 = Some nm \<and> py_hash nm = Inr k"
    and "field ''name'' h2 = field ''name'' h"
proof -
  from assms obtain p nm k where d: "is_dict h2"
    and nm: "field ''name'' h = Some nm" "py_hash nm = Inr k"
    and f: "\<And>k. field k h2 = (case field k h of Some y \<Rightarrow> Some y
            | None \<Rightarrow> map_of [(''network_api_port'', p), (''username'', YStr ''core''),
                               (''password'', YNone), (''pre_installed'', YStr ''True'')] k)"
    unfolding host_rel_def by blast
  show "host_defaults cc' h2 = Inr h2"
    by (rule host_defaults_full[OF d]) (simp_all add: f split: option.splits)
  show "\<exists>nm k. field ''name'' h2 = Some nm \<and> py_hash nm = Inr k"
    using nm by (simp add: f)
  show "field ''name'' h2 = field ''name'' h"
    using nm by (simp add: f)
qed







lemma set_first_seen: "set (first_seen xs) = set xs"
  by (induction xs rule: first_seen.induct) auto

lemma host_rel_fields:
  assumes "host_rel cc h h2" and nap: "field ''network_api_port'' cc' = field ''network_api_port'' cc"
  shows "field k h2 =
          (case field k h of
             Some y \<Rightarrow> Some y
           | None \<Rightarrow>
               if k = ''network_api_port'' then field ''network_api_port'' cc'
               else map_of [(''username'', YStr ''core''), (''password'', YNone),
                            (''pre_installed'', YStr ''True'')] k)"
proof -
  from assms(1) obtain p where p: "field ''network_api_port'' cc = Some p"
    and f: "\<And>k. field k h2 = (case field k h of Some y \<Rightarrow> Some y
            | None \<Rightarrow> map_of [(''network_api_port'', p), (''username'', YStr ''core''),
                               (''password'', YNone), (''pre_installed'', YStr ''True'')] k)"
    unfolding host_rel_def by blast
  show ?thesis
  proof (cases "field k h")
    case None
    show ?thesis
    proof (cases "k = ''network_api_port''")
      case True
      with None have n: "field ''network_api_port'' h = None" by simp
      show ?thesis unfolding True by (simp add: f n nap p)
    next
      case False
      then have "map_of [(''network_api_port'', p), (''username'', YStr ''core''),
                               (''password'', YNone), (''pre_installed'', YStr ''True'')] k
            = map_of [(''username'', YStr ''core''), (''password'', YNone),
                            (''pre_installed'', YStr ''True'')] k"
        by (simp only: map_of.simps fst_conv snd_conv) (metis fun_upd_other)
      then show ?thesis using False by (simp only: f None option.case if_False)
    qed
  next
    case (Some y)
    then show ?thesis by (simp add: f)
  qed
qed

lemmas yaml_defs =
  set_default_def py_in_def py_getitem_def py_setitem_def py_iter_def
  py_append_def py_hash_def fstr_def path_join_def put_back_def seq_len_def store_def
  cluster_defaults_def node_defaults1_def node_defaults2_def host_defaults_def cascade_def

text \<open>
  Whatever the document is, when the first cluster of the rendered file has no
  key \<^verbatim>\<open>clusters\<close>, \<^verbatim>\<open>ClustersConfig.__init__\<close> raises.
\<close>

lemma ClustersConfig_init_no_clusters_key:
  assumes "first_cluster rendered = Inr fullConfig" and "field ''clusters'' fullConfig = None"
  shows "\<exists>e. ClustersConfig_init env raw rendered = Inl e"
proof -
  from assms(2) obtain e where g: "py_getitem fullConfig ''clusters'' = Inl e"
    by (cases fullConfig) (auto simp: py_getitem_def field_def split: option.splits)
  show ?thesis
  proof (cases "first_cluster raw")
    case (Inl a)
    then show ?thesis by (simp add: ClustersConfig_init_def)
  next
    case r: (Inr fullConfig0)
    show ?thesis
    proof (cases "py_getitem fullConfig0 ''name''")
      case (Inl a)
      then show ?thesis by (simp add: ClustersConfig_init_def r)
    next
      case (Inr cn)
      then show ?thesis by (simp add: ClustersConfig_init_def r assms(1) g)
    qed
  qed
qed

text \<open>
  Claim C1. The document \<open>document_ex\<close> is \<^verbatim>\<open>clusters: [{name: c1}]\<close>: its first cluster
  lacks \<^verbatim>\<open>masters\<close>, \<^verbatim>\<open>workers\<close> and \<^verbatim>\<open>hosts\<close>. \<^verbatim>\<open>_load_full_config\<close> keeps that first
  cluster as \<^verbatim>\<open>self.fullConfig\<close>, and the loop of \<^verbatim>\<open>__init__\<close> then asks it for the key
  \<^verbatim>\<open>clusters\<close>, which it has not: constructing the configuration raises
  \<^verbatim>\<open>KeyError('clusters')\<close> and no default is set. The body of the loop, run on the
  first cluster itself, gives the three keys the empty list.
\<close>

theorem ClustersConfig_init_raises_KeyError:
  "ClustersConfig_init env_ex document_ex document_ex = Inl (KeyError ''clusters'')
   \<and> bind (first_cluster document_ex) (cascade env_ex) =
       Inr (YDict
         [(''name'', YStr ''c1''), (''masters'', YList []), (''workers'', YList []),
          (''kubeconfig'', YStr ''/root/cda/kubeconfig.c1''),
          (''preconfig'', YStr []), (''postconfig'', YStr []),
          (''version'', YStr ''4.13.0-ec.3''), (''external_port'', YStr ''auto''),
          (''network_api_port'', YStr ''auto''), (''proxy'', YNone),
          (''hosts'', YList [])])"
  by (simp add: ClustersConfig_init_def first_cluster_def py_first_def yaml_defs env_ex_def
        document_ex_def)

text \<open>
  Claim C2, as stated: after the cascade the host entries are one for each
  distinct \<^verbatim>\<open>node\<close> value of masters and workers, in the order of first appearance.
  The cluster below has the nodes \<open>m1\<close> on \<open>a\<close> and \<open>m2\<close> on \<open>b\<close>, and the host
  entries \<open>b\<close> and \<open>x\<close>. After the cascade its host entries are \<open>b\<close>, \<open>x\<close>, \<open>a\<close>: the
  entry \<open>x\<close> is the name of no node, and \<open>b\<close> comes before \<open>a\<close>.
\<close>

theorem hosts_one_per_node_counterexample:
  "bind (cascade env_ex cluster_hosts_order_ex) all_hosts =
     Inr (YList
       [YDict
         [(''name'', YStr ''b''), (''network_api_port'', YStr ''auto''),
          (''username'', YStr ''core''), (''password'', YNone),
          (''pre_installed'', YStr ''True'')],
        YDict
         [(''name'', YStr ''x''), (''network_api_port'', YStr ''auto''),
          (''username'', YStr ''core''), (''password'', YNone),
          (''pre_installed'', YStr ''True'')],
        YDict
         [(''name'', YStr ''a''), (''network_api_port'', YStr ''auto''),
          (''username'', YStr ''core''), (''password'', YNone),
          (''pre_installed'', YStr ''True'')]])
   \<and> first_seen (node_hosts cluster_hosts_order_ex) = [KStr ''a'', KStr ''b'']"
  by (simp add: yaml_defs env_ex_def cluster_hosts_order_ex_def all_hosts_def
        node_hosts_def seq_field_def field_def elems_def key_of_def)

text \<open>
  Claim C2, amended. When the cascade does not raise, the names of the host
  entries after it are the names of the host entries of the input, in their
  order (every entry of the input is kept, also one that no node is on), followed
  by the distinct \<^verbatim>\<open>node\<close> values of masters and workers that are not the name of
  an entry of the input, each once, in the order of first appearance. So every
  \<^verbatim>\<open>node\<close> value is the name of a host entry, and no entry is added for a name
  that the input has. Names are compared as the members of the set
  \<^verbatim>\<open>node_names\<close> are.
\<close>

theorem hosts_after_resolution:
  assumes "cascade env cc0 = Inr cc'"
  shows "host_names cc' =
           host_names cc0
           @ first_seen (filter (\<lambda>k. k \<notin> set (host_names cc0)) (node_hosts cc0))
         \<and> set (node_hosts cc0) \<subseteq> set (host_names cc')"
proof (rule cascade_run[OF assms], goal_cases)
  case (1 cc kc M W H ns2 hs2 s')
  note NR = 1(3) and HR = 1(4) and fcc' = 1(6) and eH = 1(9)
  define nodes where "nodes = seq_field ''masters'' cc0 @ seq_field ''workers'' cc0"
  define new where "new = fresh (host_names cc0) (map node_value nodes)"
  define hs1 where "hs1 = seq_field ''hosts'' cc0 @ map (\<lambda>nd. YDict [(''name'', nd)]) new"
  note NR' = NR[folded nodes_def]
  note HR' = HR[folded nodes_def host_names_def, folded new_def, folded hs1_def]
  have sf: "seq_field ''hosts'' cc' = hs2"
    by (simp add: seq_field_def fcc' eH)
  have names: "map (\<lambda>h. field ''name'' h) hs2 = map (\<lambda>h. field ''name'' h) hs1"
    using HR' by (induction hs1 hs2 rule: list_all2_induct) (auto dest: host_rel_full(3))
  have "host_names cc' = map key_of (map (\<lambda>h. field ''name'' h) hs2)"
    by (simp add: host_names_def sf)
  also have "\<dots> = map key_of (map (\<lambda>h. field ''name'' h) hs1)"
    by (simp only: names)
  also have "\<dots> = host_names cc0 @ map (\<lambda>nd. key_of (Some nd)) new"
    by (simp add: hs1_def host_names_def field_def)
  finally have a: "host_names cc' = host_names cc0 @ map (\<lambda>nd. key_of (Some nd)) new" .
  have nv: "map (\<lambda>nd. key_of (Some nd)) (map node_value nodes) = node_hosts cc0"
    unfolding node_hosts_def nodes_def[symmetric]
  proof (simp, rule ballI)
    fix n assume "n \<in> set nodes"
    then obtain n2 where "node_rel n n2"
      using NR' by (auto simp: list_all2_conv_all_nth in_set_conv_nth)
    then obtain nd where "field ''node'' n = Some nd" by (auto simp: node_rel_def)
    then show "key_of (Some (node_value n)) = key_of (field ''node'' n)"
      by (simp add: node_value_def)
  qed
  have b: "map (\<lambda>nd. key_of (Some nd)) new
             = first_seen (filter (\<lambda>k. k \<notin> set (host_names cc0)) (node_hosts cc0))"
    unfolding new_def fresh_first_seen nv ..
  show ?case
    unfolding a b by (auto simp: set_first_seen)
qed

theorem hosts_after_resolution_witness:
  "cascade env_ex cluster_ex = Inr cluster_ex_resolved
   \<and> host_names cluster_ex = []
   \<and> node_hosts cluster_ex = [KStr ''a'', KStr ''b'', KStr ''a'']
   \<and> host_names cluster_ex_resolved = [KStr ''a'', KStr ''b'']
   \<and> set (node_hosts cluster_ex) \<subseteq> set (host_names cluster_ex_resolved)"
proof -
  have run: "cascade env_ex cluster_ex = Inr cluster_ex_resolved"
    by (simp add: yaml_defs env_ex_def cluster_ex_def cluster_ex_resolved_def)
  have a: "host_names cluster_ex = []"
    by (simp add: cluster_ex_def host_names_def seq_field_def field_def)
  have b: "node_hosts cluster_ex = [KStr ''a'', KStr ''b'', KStr ''a'']"
    by (simp add: cluster_ex_def node_hosts_def seq_field_def field_def elems_def key_of_def
          py_hash_def)
  have c: "host_names cluster_ex_resolved = [KStr ''a'', KStr ''b'']"
    by (simp add: cluster_ex_resolved_def host_names_def seq_field_def field_def elems_def
          key_of_def py_hash_def)
  from hosts_after_resolution[OF run] run a b c show ?thesis
    by blast
qed



text \<open>
  Claim C9, as stated: a host entry without \<^verbatim>\<open>pre_installed\<close> gets the boolean
  \<^verbatim>\<open>True\<close>. The cluster \<open>cluster_ex\<close> has no host entries; the cascade makes the
  entries \<open>a\<close> and \<open>b\<close> for it, and gives both the string \<^verbatim>\<open>"True"\<close>, which is not
  the boolean.
\<close>

theorem pre_installed_default_counterexample:
  "bind (cascade env_ex cluster_ex) all_hosts =
     Inr (YList
          [YDict
            [(''name'', YStr ''a''), (''network_api_port'', YStr ''auto''),
             (''username'', YStr ''core''), (''password'', YNone),
             (''pre_installed'', YStr ''True'')],
           YDict
            [(''name'', YStr ''b''), (''network_api_port'', YStr ''auto''),
             (''username'', YStr ''core''), (''password'', YNone),
             (''pre_installed'', YStr ''True'')]])
   \<and> field ''hosts'' cluster_ex = None
   \<and> YStr ''True'' \<noteq> YBool True"
  by (simp add: yaml_defs env_ex_def cluster_ex_def all_hosts_def field_def)

text \<open>
  Claim C9, amended. When the cascade does not raise, every host entry after it,
  be it an entry of the input or an added one, has the fields it had before,
  unchanged, and for the keys it lacked: \<^verbatim>\<open>pre_installed\<close> is the string \<^verbatim>\<open>"True"\<close>,
  \<^verbatim>\<open>username\<close> is \<^verbatim>\<open>"core"\<close>, \<^verbatim>\<open>password\<close> is \<^verbatim>\<open>None\<close>, and \<^verbatim>\<open>network_api_port\<close> is that
  of the cluster; it has no other field.
\<close>

theorem host_entry_defaults:
  assumes "cascade env cc0 = Inr cc'"
  shows "list_all2
           (\<lambda>h h'. \<forall>k. field k h' =
              (case field k h of
                 Some y \<Rightarrow> Some y
               | None \<Rightarrow>
                   if k = ''network_api_port'' then field ''network_api_port'' cc'
                   else map_of [(''username'', YStr ''core''), (''password'', YNone),
                                (''pre_installed'', YStr ''True'')] k))
           (host_entries cc0) (seq_field ''hosts'' cc')"
proof (rule cascade_run[OF assms], goal_cases)
  case (1 cc kc M W H ns2 hs2 s')
  note HR = 1(4) and fcc' = 1(6) and eH = 1(9)
  have sf: "seq_field ''hosts'' cc' = hs2"
    by (simp add: seq_field_def fcc' eH)
  have nap: "field ''network_api_port'' cc' = field ''network_api_port'' cc"
    by (simp add: fcc')
  show ?case
    unfolding sf host_entries_def host_names_def
    using HR
  proof (rule list_all2_mono)
    fix h h2 assume "host_rel cc h h2"
    from host_rel_fields[OF this nap]
    show "\<forall>k. field k h2 =
          (case field k h of
             Some y \<Rightarrow> Some y
           | None \<Rightarrow>
               if k = ''network_api_port'' then field ''network_api_port'' cc'
               else map_of [(''username'', YStr ''core''), (''password'', YNone),
                            (''pre_installed'', YStr ''True'')] k)"
      by blast
  qed
qed

theorem host_entry_defaults_witness:
  "cascade env_ex cluster_with_hosts_ex = Inr cluster_with_hosts_resolved
   \<and> host_entries cluster_with_hosts_ex =
       [YDict [(''name'', YStr ''x''), (''pre_installed'', YBool False)],
        YDict [(''name'', YStr ''a'')]]
   \<and> seq_field ''hosts'' cluster_with_hosts_resolved =
       [YDict
         [(''name'', YStr ''x''), (''pre_installed'', YBool False),
          (''network_api_port'', YStr ''auto''),
          (''username'', YStr ''core''), (''password'', YNone)],
        YDict
         [(''name'', YStr ''a''), (''network_api_port'', YStr ''auto''),
          (''username'', YStr ''core''), (''password'', YNone),
          (''pre_installed'', YStr ''True'')]]"
proof -
  have run: "cascade env_ex cluster_with_hosts_ex = Inr cluster_with_hosts_resolved"
    by (simp add: yaml_defs env_ex_def cluster_with_hosts_ex_def cluster_with_hosts_resolved_def)
  have a: "host_entries cluster_with_hosts_ex =
       [YDict [(''name'', YStr ''x''), (''pre_installed'', YBool False)],
        YDict [(''name'', YStr ''a'')]]"
    by (simp add: cluster_with_hosts_ex_def host_entries_def host_names_def node_value_def
          seq_field_def field_def elems_def key_of_def py_hash_def)
  have b: "seq_field ''hosts'' cluster_with_hosts_resolved =
       [YDict
         [(''name'', YStr ''x''), (''pre_installed'', YBool False),
          (''network_api_port'', YStr ''auto''),
          (''username'', YStr ''core''), (''password'', YNone)],
        YDict
         [(''name'', YStr ''a''), (''network_api_port'', YStr ''auto''),
          (''username'', YStr ''core''), (''password'', YNone),
          (''pre_installed'', YStr ''True'')]]"
    by (simp add: cluster_with_hosts_resolved_def seq_field_def field_def elems_def)
  from host_entry_defaults[OF run] run a b show ?thesis
    by blast
qed


end
